theory Spec2Isabelle
  imports Complex_Main "HOL-Library.Char_ord" "HOL-Library.List_Lexorder"
begin

section \<open>JavaScript values and string helpers used by Index.js\<close>

text \<open>
  Strings are byte strings in UTF-8, as the messages travel to the chat transport. The
  non-ASCII characters of the message literals in Index.js are written out as their UTF-8
  bytes.
\<close>

definition emoji_lock :: string where
  "emoji_lock = [CHR 0xF0, CHR 0x9F, CHR 0x94, CHR 0x92]"

definition emoji_check :: string where
  "emoji_check = [CHR 0xE2, CHR 0x9C, CHR 0x85]"

definition emoji_new :: string where
  "emoji_new = [CHR 0xF0, CHR 0x9F, CHR 0x86, CHR 0x95]"

definition emoji_no_entry :: string where
  "emoji_no_entry = [CHR 0xF0, CHR 0x9F, CHR 0x9A, CHR 0xAB]"

definition emoji_warning :: string where
  "emoji_warning = [CHR 0xE2, CHR 0x9A, CHR 0xA0, CHR 0xEF, CHR 0xB8, CHR 0x8F]"

definition em_dash :: string where
  "em_dash = [CHR 0xE2, CHR 0x80, CHR 0x94]"

text \<open>
  \<open>String(n)\<close> for an integral Number below \<open>10^21\<close> in size, as chat ids and
  counts are: decimal digits, with a minus sign.
\<close>

definition digit_char :: "nat \<Rightarrow> char" where
  "digit_char d = ''0123456789'' ! (d mod 10)"

fun digits :: "nat \<Rightarrow> string" where
  "digits n = (if n < 10 then [digit_char n] else digits (n div 10) @ [digit_char n])"

definition String_nat :: "nat \<Rightarrow> string" where
  "String_nat n = digits n"

definition String_int :: "int \<Rightarrow> string" where
  "String_int i = (if i < 0 then CHR ''-'' # digits (nat (- i)) else digits (nat i))"

text \<open>
  A chat id reaches the registry and the ledger either as the Number of the transport
  (\<open>ctx.chat.id\<close>, \<open>ctx.from.id\<close>) or as the piece of a button payload
  (\<open>data.split("_")[1]\<close>, a String, or \<open>undefined\<close> when the piece is missing).
  \<open>String(chatId)\<close> is the key of both stores.
\<close>

datatype jsid = NumId int | StrId string | UndefinedId

fun String :: "jsid \<Rightarrow> string" where
  "String (NumId n) = String_int n"
| "String (StrId s) = s"
| "String UndefinedId = ''undefined''"

text \<open>\<open>s.startsWith(p)\<close> and its mirror image.\<close>

definition startsWith :: "string \<Rightarrow> string \<Rightarrow> bool" where
  "startsWith s p = (take (length p) s = p)"

definition endsWith :: "string \<Rightarrow> string \<Rightarrow> bool" where
  "endsWith s p = (length p \<le> length s \<and> drop (length s - length p) s = p)"

text \<open>
  \<open>s.split(sep)\<close> for a separator of one character: the pieces between the
  separators, empty pieces included; the empty string splits into one empty piece.
\<close>

fun js_split :: "char \<Rightarrow> string \<Rightarrow> string list" where
  "js_split sep [] = [[]]"
| "js_split sep (c # cs) =
     (if c = sep then [] # js_split sep cs
      else (case js_split sep cs of
              w # ws \<Rightarrow> (c # w) # ws
            | [] \<Rightarrow> [[c]]))"

text \<open>\<open>xs.join(sep)\<close>.\<close>

fun js_join :: "string \<Rightarrow> string list \<Rightarrow> string" where
  "js_join sep [] = []"
| "js_join sep [w] = w"
| "js_join sep (w # v # ws) = w @ sep @ js_join sep (v # ws)"

text \<open>\<open>xs[i]\<close> on an array of strings: \<open>undefined\<close> out of range.\<close>

definition at_index :: "string list \<Rightarrow> nat \<Rightarrow> jsid" where
  "at_index xs i = (if i < length xs then StrId (xs ! i) else UndefinedId)"

text \<open>
  \<open>s.trim()\<close> removes the white space and line terminators of ECMAScript from both
  ends: U+0009 to U+000D, U+0020, U+00A0, U+1680, U+2000 to U+200A, U+2028, U+2029,
  U+202F, U+205F, U+3000 and U+FEFF, here in UTF-8.
\<close>

definition whitespace :: "string list" where
  "whitespace =
     [[CHR 0x09], [CHR 0x0A], [CHR 0x0B], [CHR 0x0C], [CHR 0x0D], [CHR 0x20],
      [CHR 0xC2, CHR 0xA0],
      [CHR 0xE1, CHR 0x9A, CHR 0x80],
      [CHR 0xE2, CHR 0x80, CHR 0x80], [CHR 0xE2, CHR 0x80, CHR 0x81],
      [CHR 0xE2, CHR 0x80, CHR 0x82], [CHR 0xE2, CHR 0x80, CHR 0x83],
      [CHR 0xE2, CHR 0x80, CHR 0x84], [CHR 0xE2, CHR 0x80, CHR 0x85],
      [CHR 0xE2, CHR 0x80, CHR 0x86], [CHR 0xE2, CHR 0x80, CHR 0x87],
      [CHR 0xE2, CHR 0x80, CHR 0x88], [CHR 0xE2, CHR 0x80, CHR 0x89],
      [CHR 0xE2, CHR 0x80, CHR 0x8A],
      [CHR 0xE2, CHR 0x80, CHR 0xA8], [CHR 0xE2, CHR 0x80, CHR 0xA9],
      [CHR 0xE2, CHR 0x80, CHR 0xAF],
      [CHR 0xE2, CHR 0x81, CHR 0x9F],
      [CHR 0xE3, CHR 0x80, CHR 0x80],
      [CHR 0xEF, CHR 0xBB, CHR 0xBF]]"

function trimStart :: "string \<Rightarrow> string" where
  "trimStart s =
     (case find (startsWith s) whitespace of
        Some w \<Rightarrow> trimStart (drop (length w) s)
      | None \<Rightarrow> s)"
  by pat_completeness auto
termination
proof (relation "measure length")
  show "wf (measure length)" by simp
next
  fix s w :: string
  assume "find (startsWith s) whitespace = Some w"
  then have m: "w \<in> set whitespace" and p: "startsWith s w"
    by (auto simp add: find_Some_iff)
  from m have n: "0 < length w"
    by (auto simp add: whitespace_def)
  from p have "length (take (length w) s) = length w"
    by (simp add: startsWith_def)
  then have "length w \<le> length s"
    by simp
  with n have "length s - length w < length s"
    by arith
  then show "(drop (length w) s, s) \<in> measure length"
    by simp
qed

function trimEnd :: "string \<Rightarrow> string" where
  "trimEnd s =
     (case find (endsWith s) whitespace of
        Some w \<Rightarrow> trimEnd (take (length s - length w) s)
      | None \<Rightarrow> s)"
  by pat_completeness auto
termination
proof (relation "measure length")
  show "wf (measure length)" by simp
next
  fix s w :: string
  assume "find (endsWith s) whitespace = Some w"
  then have m: "w \<in> set whitespace" and p: "endsWith s w"
    by (auto simp add: find_Some_iff)
  from m have n: "0 < length w"
    by (auto simp add: whitespace_def)
  from p have "length w \<le> length s"
    by (simp add: endsWith_def)
  with n have "length s - length w < length s"
    by arith
  then show "(take (length s - length w) s, s) \<in> measure length"
    by simp
qed

declare trimStart.simps [simp del] trimEnd.simps [simp del]

definition trim :: "string \<Rightarrow> string" where
  "trim s = trimEnd (trimStart s)"

text \<open>\<open>a || b\<close> on a string that may be \<open>undefined\<close>: the empty string is falsy.\<close>

definition or_str :: "string option \<Rightarrow> string \<Rightarrow> string" where
  "or_str a b = (case a of Some s \<Rightarrow> (if s = [] then b else s) | None \<Rightarrow> b)"

text \<open>
  The values of a parsed JSON response, and \<open>undefined\<close>, which reading a missing
  property gives.
\<close>

datatype jsval =
    JUndefined
  | JNull
  | JBool bool
  | JNum real
  | JStr string
  | JArr "jsval list"
  | JObj "(string \<times> jsval) list"

text \<open>Truthiness: \<open>undefined\<close>, \<open>null\<close>, \<open>false\<close>, \<open>0\<close> and \<open>""\<close> are falsy.\<close>

fun truthy :: "jsval \<Rightarrow> bool" where
  "truthy JUndefined = False"
| "truthy JNull = False"
| "truthy (JBool b) = b"
| "truthy (JNum r) = (r \<noteq> 0)"
| "truthy (JStr s) = (s \<noteq> [])"
| "truthy (JArr xs) = True"
| "truthy (JObj kvs) = True"

text \<open>
  \<open>v?.name\<close>: \<open>undefined\<close> on \<open>undefined\<close> and \<open>null\<close>; an own property of
  an object; \<open>undefined\<close> on any other value for the names read here
  (\<open>data\<close>, \<open>output\<close>, \<open>image_url\<close>, \<open>url\<close>), which no array, string, number
  or boolean has.
\<close>

fun get_prop :: "jsval \<Rightarrow> string \<Rightarrow> jsval" where
  "get_prop (JObj kvs) name = (case map_of kvs name of Some v \<Rightarrow> v | None \<Rightarrow> JUndefined)"
| "get_prop v name = JUndefined"

text \<open>
  \<open>v?.[0]\<close>: the first element of an array, the first character of a string, the
  property \<open>"0"\<close> of an object, \<open>undefined\<close> otherwise.
\<close>

fun get_first :: "jsval \<Rightarrow> jsval" where
  "get_first (JArr xs) = (case xs of x # _ \<Rightarrow> x | [] \<Rightarrow> JUndefined)"
| "get_first (JStr s) = (case s of c # _ \<Rightarrow> JStr [c] | [] \<Rightarrow> JUndefined)"
| "get_first (JObj kvs) = (case map_of kvs ''0'' of Some v \<Rightarrow> v | None \<Rightarrow> JUndefined)"
| "get_first v = JUndefined"

text \<open>\<open>a || b\<close> on values.\<close>

definition or_val :: "jsval \<Rightarrow> jsval \<Rightarrow> jsval" where
  "or_val a b = (if truthy a then a else b)"

section \<open>Stores\<close>

datatype status = pending | approved | denied

text \<open>
  A value of users.json: \<open>{ status, username, requestedAt }\<close>. A field that is
  \<open>null\<close> or was never written is \<open>None\<close>.
\<close>

record user_record =
  status :: status
  username :: "string option"
  requestedAt :: "string option"

text \<open>
  A value of the \<open>sessions\<close> Map:
  \<open>{ modelName, baseImages: [], refImages: [], instagramHandles: [] }\<close>;
  \<open>modelName\<close> is \<open>undefined\<close> (\<open>None\<close>) until /model sets it.
\<close>

record session =
  modelName :: "string option"
  baseImages :: "string list"
  refImages :: "string list"
  instagramHandles :: "string list"

text \<open>
  The state of the process: the two JSON files (\<open>readUsers\<close>/\<open>writeUsers\<close>,
  \<open>readUsage\<close>/\<open>writeUsage\<close> read and replace the whole document) and the
  in-memory \<open>sessions\<close> Map, keyed by the numeric chat id. Reading a property of a
  parsed document is a lookup in a map; the two agree on every key that is not the name
  of a property of \<open>Object.prototype\<close>, as the decimal strings of chat ids and the
  dates are. Counts and the daily limit are integers.
\<close>

record state =
  users :: "string \<rightharpoonup> user_record"
  usage :: "string \<rightharpoonup> (string \<rightharpoonup> int)"
  sessions :: "int \<rightharpoonup> session"

definition empty_state :: state where
  "empty_state = \<lparr>users = Map.empty, usage = Map.empty, sessions = Map.empty\<rparr>"

text \<open>Process configuration, read once from the environment.\<close>

record config =
  ADMIN_ID :: string
  DAILY_LIMIT :: int
  TELEGRAM_TOKEN :: string
  WAVESPEED_KEY :: "string option"

section \<open>User management\<close>

definition getUserStatus :: "state \<Rightarrow> jsid \<Rightarrow> status option" where
  "getUserStatus st chatId =
     (case users st (String chatId) of
        Some r \<Rightarrow> Some (status r)
      | None \<Rightarrow> None)"

text \<open>
  \<open>ensureUserPending(chatId, username)\<close>; \<open>now\<close> is what
  \<open>new Date().toISOString()\<close> returns. \<open>username || null\<close> turns the empty
  string into \<open>null\<close>.
\<close>

definition ensureUserPending :: "state \<Rightarrow> jsid \<Rightarrow> string \<Rightarrow> string \<Rightarrow> bool \<times> state" where
  "ensureUserPending st chatId uname now =
     (if users st (String chatId) = None
      then (True, st\<lparr>users := (users st)(String chatId \<mapsto>
              \<lparr>status = pending,
               username = (if uname = [] then None else Some uname),
               requestedAt = Some now\<rparr>)\<rparr>)
      else (False, st))"

definition setUserStatus :: "state \<Rightarrow> jsid \<Rightarrow> status \<Rightarrow> string \<Rightarrow> state" where
  "setUserStatus st chatId new_status now =
     (let r = (case users st (String chatId) of
                 Some r \<Rightarrow> r\<lparr>status := new_status\<rparr>
               | None \<Rightarrow> \<lparr>status = new_status, username = None, requestedAt = None\<rparr>);
          r' = (if requestedAt r = None \<or> requestedAt r = Some []
                then r\<lparr>requestedAt := Some now\<rparr> else r)
      in st\<lparr>users := (users st)(String chatId \<mapsto> r')\<rparr>)"

section \<open>Usage tracking\<close>

text \<open>
  \<open>today\<close> is what \<open>todayStr()\<close> returns when the function runs: the UTC date
  as \<open>YYYY-MM-DD\<close>.
\<close>

definition getUsageCount :: "state \<Rightarrow> jsid \<Rightarrow> string \<Rightarrow> int" where
  "getUsageCount st chatId today =
     (case usage st today of
        None \<Rightarrow> 0
      | Some day \<Rightarrow> (case day (String chatId) of Some c \<Rightarrow> c | None \<Rightarrow> 0))"

definition addUsage :: "state \<Rightarrow> jsid \<Rightarrow> int \<Rightarrow> string \<Rightarrow> state" where
  "addUsage st chatId add today =
     (let day = (case usage st today of Some d \<Rightarrow> d | None \<Rightarrow> Map.empty);
          c = (case day (String chatId) of Some c \<Rightarrow> c | None \<Rightarrow> 0)
      in st\<lparr>usage := (usage st)(today \<mapsto> day(String chatId \<mapsto> c + add))\<rparr>)"

section \<open>What a handler does to the outside\<close>

text \<open>The argument of \<open>callWavespeedEdit\<close>.\<close>

record wavespeed_args =
  baseImage :: "string option"
  refImage :: string
  prompt :: string
  seed :: int

text \<open>
  The calls a handler makes, in the order it makes them. An inline keyboard is the list
  of its buttons, each a label and a payload. In the handlers of this and the next three
  sections every call of the chat transport returns normally; \<open>safeSendMessage\<close> and
  \<open>safeSendPhoto\<close> make that so for theirs. The handler of /generate is embedded a
  second time after them, with the replies it awaits delivered or rejected.
\<close>

datatype effect =
    Reply int string "(string \<times> string) list"
  | SendMessage string string "(string \<times> string) list"
  | SendPhoto int jsval string
  | AnswerCbQuery "string option"
  | EditMessageText string
  | GetFile string
  | FetchInstagram string nat
  | CallWavespeedEdit wavespeed_args
  | ConsoleLog string

text \<open>The sender of an update: \<open>ctx.from\<close>.\<close>

record sender =
  from_id :: int
  from_username :: "string option"
  first_name :: "string option"
  last_name :: "string option"

definition falsy_str :: "string option \<Rightarrow> bool" where
  "falsy_str a = (a = None \<or> a = Some [])"

definition new_session :: session where
  "new_session = \<lparr>modelName = None, baseImages = [], refImages = [], instagramHandles = []\<rparr>"

section \<open>Handlers: start, buttons, /model, /status\<close>

definition bot_start :: "state \<Rightarrow> int \<Rightarrow> state \<times> effect list" where
  "bot_start st chatId =
     (st, [Reply chatId
            (emoji_lock @ '' This bot is private. Tap Request Access to ask the admin for permission.'')
            [(''Request Access'', ''request_'' @ String_int chatId)]])"

text \<open>
  \<open>bot.on('callback_query')\<close>: \<open>chatId\<close> is the chat \<open>ctx.reply\<close> answers in,
  \<open>data\<close> is \<open>ctx.callbackQuery.data\<close>.
\<close>

definition on_callback_query ::
  "config \<Rightarrow> state \<Rightarrow> int \<Rightarrow> sender \<Rightarrow> string option \<Rightarrow> string \<Rightarrow> state \<times> effect list" where
  "on_callback_query cfg st chatId sndr data now =
     (if \<not> falsy_str data \<and> startsWith (the data) ''request_'' then
        (let requesterChatId = from_id sndr;
             requesterUsername =
               or_str (from_username sndr)
                 (or_str (first_name sndr) [] @ '' '' @ or_str (last_name sndr) []);
             st' = snd (ensureUserPending st (NumId requesterChatId) requesterUsername now);
             adminMsg = emoji_new @ '' Access Request'' @ [CHR 0x0A] @ ''User: @''
               @ requesterUsername @ [CHR 0x0A] @ ''Chat ID: '' @ String_int requesterChatId
         in (st',
             [AnswerCbQuery (Some ''Access request sent to admin.''),
              Reply chatId (emoji_check @ '' Request sent. You'll be notified when approved.'') [],
              SendMessage (ADMIN_ID cfg) adminMsg
                [(emoji_check @ '' Approve'', ''approve_'' @ String_int requesterChatId),
                 (emoji_no_entry @ '' Deny'', ''deny_'' @ String_int requesterChatId)]]))
      else if \<not> falsy_str data \<and> startsWith (the data) ''approve_''
              \<and> String_int (from_id sndr) = ADMIN_ID cfg then
        (let cid = at_index (js_split CHR ''_'' (the data)) 1
         in (setUserStatus st cid approved now,
             [AnswerCbQuery (Some ''User approved.''),
              SendMessage (String cid)
                (emoji_check @ '' You have been approved! You can now use /model and /generate.'') [],
              EditMessageText (''Approved user '' @ String cid)]))
      else if \<not> falsy_str data \<and> startsWith (the data) ''deny_''
              \<and> String_int (from_id sndr) = ADMIN_ID cfg then
        (let cid = at_index (js_split CHR ''_'' (the data)) 1
         in (setUserStatus st cid denied now,
             [AnswerCbQuery (Some ''User denied.''),
              SendMessage (String cid)
                (emoji_no_entry @ '' Your access request was denied by the admin.'') [],
              EditMessageText (''Denied user '' @ String cid)]))
      else (st, [AnswerCbQuery None]))"

definition command_model :: "state \<Rightarrow> int \<Rightarrow> string \<Rightarrow> state \<times> effect list" where
  "command_model st chatId text =
     (let args = drop 1 (js_split CHR '' '' text);
          mName = trim (js_join '' '' args)
      in if mName = [] then (st, [Reply chatId ''Usage: /model <Model Name>'' []])
         else if getUserStatus st (NumId chatId) \<noteq> Some approved then
           (st, [Reply chatId
                  (emoji_lock @ '' You are not approved yet. Tap Request Access first.'') []])
         else
           (let s = (case sessions st chatId of Some s \<Rightarrow> s | None \<Rightarrow> new_session);
                s' = s\<lparr>modelName := Some mName\<rparr>
            in (st\<lparr>sessions := (sessions st)(chatId \<mapsto> s')\<rparr>,
                [Reply chatId
                   (''Model name set to: '' @ mName
                    @ ''. Now send base images (1-5), then reference images (1-3) or use /fetch_instagram <username>.'')
                   []])))"

definition status_text :: "status \<Rightarrow> string" where
  "status_text x = (case x of pending \<Rightarrow> ''pending'' | approved \<Rightarrow> ''approved'' | denied \<Rightarrow> ''denied'')"

definition command_status :: "config \<Rightarrow> state \<Rightarrow> int \<Rightarrow> string \<Rightarrow> state \<times> effect list" where
  "command_status cfg st chatId today =
     (let stat = (case users st (String_int chatId) of
                    Some r \<Rightarrow> status_text (status r)
                  | None \<Rightarrow> ''none'');
          usageCount = getUsageCount st (NumId chatId) today
      in (st, [Reply chatId
                (''Status: '' @ stat @ [CHR 0x0A] @ ''Today usage: '' @ String_int usageCount
                 @ ''/'' @ String_int (DAILY_LIMIT cfg)) []]))"

section \<open>Handlers: /fetch_instagram and photos\<close>

text \<open>What \<open>fetchInstagram\<close> does: it throws an error with a message, or returns URLs.\<close>

datatype fetch_result = FetchThrows string | FetchReturns "string list"

text \<open>\<open>s.replace("@", "")\<close>: the first \<open>@\<close> is removed.\<close>

fun replace_at :: "string \<Rightarrow> string" where
  "replace_at [] = []"
| "replace_at (c # cs) = (if c = CHR ''@'' then cs else c # replace_at cs)"

definition command_fetch_instagram ::
  "state \<Rightarrow> int \<Rightarrow> string \<Rightarrow> fetch_result \<Rightarrow> state \<times> effect list" where
  "command_fetch_instagram st chatId text fetched =
     (if getUserStatus st (NumId chatId) \<noteq> Some approved then
        (st, [Reply chatId (emoji_lock @ '' Not approved.'') []])
      else
        (let parts = drop 1 (js_split CHR '' '' text)
         in if parts = [] \<or> hd parts = [] then
              (st, [Reply chatId ''Usage: /fetch_instagram <username>'' []])
            else
              (let uname = replace_at (hd parts);
                   before = [Reply chatId (''Fetching recent images for @'' @ uname @ ''...'') [],
                             FetchInstagram uname 6]
               in case fetched of
                    FetchThrows msg \<Rightarrow>
                      (st, before @ [ConsoleLog ''fetch_instagram error'',
                                     Reply chatId (''Failed to fetch Instagram images: '' @ msg) []])
                  | FetchReturns imgs \<Rightarrow>
                      if length imgs = 0 then (st, before @ [Reply chatId ''No images found.'' []])
                      else
                        (let s = (case sessions st chatId of Some s \<Rightarrow> s | None \<Rightarrow> new_session);
                             s' = s\<lparr>refImages := refImages s @ imgs\<rparr>
                         in (st\<lparr>sessions := (sessions st)(chatId \<mapsto> s')\<rparr>,
                             before @ [Reply chatId
                               (''Added '' @ String_nat (length imgs) @ '' reference images from @''
                                @ uname @ ''. Send /generate when ready.'') []])))))"

text \<open>
  \<open>bot.on("message")\<close>: \<open>photo\<close> is \<open>ctx.message.photo\<close>, the file ids of the
  sizes of the photo (\<open>None\<close> on a message with no photo); \<open>file_path\<close> is the
  \<open>file_path\<close> of what \<open>getFile\<close> returns, \<open>None\<close> when it throws.
\<close>

definition on_message ::
  "config \<Rightarrow> state \<Rightarrow> int \<Rightarrow> sender \<Rightarrow> string list option \<Rightarrow> string option \<Rightarrow> string
     \<Rightarrow> state \<times> effect list" where
  "on_message cfg st chatId sndr photo file_path now =
     (case photo of
        None \<Rightarrow> (st, [])
      | Some sizes \<Rightarrow>
          if length sizes = 0 then (st, [])
          else if getUserStatus st (NumId chatId) \<noteq> Some approved then
            (snd (ensureUserPending st (NumId chatId)
                    (or_str (from_username sndr) (or_str (first_name sndr) [])) now),
             [Reply chatId
                (emoji_lock @ '' You're not approved yet. Tap Request Access or wait for admin approval.'')
                []])
          else
            (let fileId = sizes ! (length sizes - 1)
             in case file_path of
                  None \<Rightarrow> (st, [GetFile fileId, ConsoleLog ''photo handler err''])
                | Some fp \<Rightarrow>
                    (let fileUrl = ''https://api.telegram.org/file/bot'' @ TELEGRAM_TOKEN cfg
                           @ ''/'' @ fp;
                         s = (case sessions st chatId of Some s \<Rightarrow> s | None \<Rightarrow> new_session)
                     in if falsy_str (modelName s) \<or> length (baseImages s) < 2 then
                          (let s' = s\<lparr>baseImages := baseImages s @ [fileUrl]\<rparr>
                           in (st\<lparr>sessions := (sessions st)(chatId \<mapsto> s')\<rparr>,
                               [GetFile fileId,
                                Reply chatId
                                  (emoji_check @ '' Base image added (total base images: ''
                                   @ String_nat (length (baseImages s')) @ '').'') []]))
                        else
                          (let s' = s\<lparr>refImages := refImages s @ [fileUrl]\<rparr>
                           in (st\<lparr>sessions := (sessions st)(chatId \<mapsto> s')\<rparr>,
                               [GetFile fileId,
                                Reply chatId
                                  (emoji_check @ '' Reference image added (total refs: ''
                                   @ String_nat (length (refImages s'))
                                   @ ''). Send /generate when ready.'') []])))))"

section \<open>Handler: /generate\<close>

text \<open>
  What \<open>callWavespeedEdit\<close> does once its request is sent: the request or the parsing
  of the response throws, or a JSON value comes back.
\<close>

datatype backend_result = Throws | Returns jsval

text \<open>
  \<open>callWavespeedEdit\<close> throws before any request when no key is configured;
  \<open>answer\<close> is what the request gives otherwise.
\<close>

definition callWavespeedEdit :: "config \<Rightarrow> wavespeed_args \<Rightarrow> backend_result \<Rightarrow> backend_result" where
  "callWavespeedEdit cfg args answer = (if falsy_str (WAVESPEED_KEY cfg) then Throws else answer)"

text \<open>
  \<open>wres?.data?.image_url || wres?.data?.[0]?.url || wres?.output?.[0]?.url || null\<close>
\<close>

definition find_url :: "jsval \<Rightarrow> jsval" where
  "find_url wres =
     or_val (get_prop (get_prop wres ''data'') ''image_url'')
       (or_val (get_prop (get_first (get_prop wres ''data'')) ''url'')
          (or_val (get_prop (get_first (get_prop wres ''output'')) ''url'') JNull))"

definition variationsPerRef :: nat where
  "variationsPerRef = 2"

definition make_prompt :: "session \<Rightarrow> string" where
  "make_prompt s =
     ''A realistic portrait of '' @ (case modelName s of Some m \<Rightarrow> m | None \<Rightarrow> ''undefined'')
     @ '', matching the pose/outfit of the reference, ultra realistic, cinematic lighting, consistent face, photo quality.''"

text \<open>
  The state of the two loops: \<open>generatedUrls\<close> and the calls made so far.
\<close>

record gen_state =
  generatedUrls :: "jsval list"
  calls :: "effect list"

text \<open>
  The environment of a batch: at the iteration for reference \<open>i\<close> and variation
  \<open>v\<close>, the seed \<open>Math.random\<close> gives and what the backend answers.
\<close>

type_synonym backend = "nat \<Rightarrow> nat \<Rightarrow> int \<times> backend_result"

text \<open>
  The body of the inner loop, for the reference \<open>ref\<close> at index \<open>i\<close> and the
  variation \<open>v\<close>: one call of \<open>callWavespeedEdit\<close> inside \<open>try\<close>, then the
  photo, or the report that no image came, or the report of the \<open>catch\<close>.
\<close>

definition call_args :: "session \<Rightarrow> backend \<Rightarrow> nat \<Rightarrow> string \<Rightarrow> nat \<Rightarrow> wavespeed_args" where
  "call_args s env i ref v =
     \<lparr>baseImage = (case baseImages s of b # _ \<Rightarrow> Some b | [] \<Rightarrow> None),
      refImage = ref, prompt = make_prompt s, seed = fst (env i v)\<rparr>"

definition generate_one ::
  "config \<Rightarrow> int \<Rightarrow> session \<Rightarrow> nat \<Rightarrow> backend \<Rightarrow> nat \<Rightarrow> string \<Rightarrow> nat \<Rightarrow> gen_state
     \<Rightarrow> gen_state" where
  "generate_one cfg chatId s totalImages env i ref v g =
     (let args = call_args s env i ref v
      in case callWavespeedEdit cfg args (snd (env i v)) of
           Returns wres \<Rightarrow>
             (let url = find_url wres
              in if truthy url then
                   g\<lparr>generatedUrls := generatedUrls g @ [url],
                     calls := calls g @
                       [CallWavespeedEdit args,
                        SendPhoto chatId url
                          (''Result '' @ String_nat (length (generatedUrls g @ [url]))
                           @ ''/'' @ String_nat totalImages)]\<rparr>
                 else
                   g\<lparr>calls := calls g @
                       [CallWavespeedEdit args,
                        ConsoleLog ''No url in wavespeed response'',
                        Reply chatId
                          (emoji_warning @ '' Generation returned no image for one variation.'')
                          []]\<rparr>)
         | Throws \<Rightarrow>
             g\<lparr>calls := calls g @
                 [CallWavespeedEdit args,
                  ConsoleLog ''Generation error'',
                  Reply chatId
                    (emoji_warning @ '' Error during generation. Try again later.'') []]\<rparr>)"

text \<open>The inner loop, \<open>for (let v = 0; v < variationsPerRef; v++)\<close>.\<close>

function variations_loop ::
  "config \<Rightarrow> int \<Rightarrow> session \<Rightarrow> nat \<Rightarrow> backend \<Rightarrow> nat \<Rightarrow> string \<Rightarrow> nat \<Rightarrow> gen_state
     \<Rightarrow> gen_state" where
  "variations_loop cfg chatId s totalImages env i ref v g =
     (if v < variationsPerRef then
        variations_loop cfg chatId s totalImages env i ref (v + 1)
          (generate_one cfg chatId s totalImages env i ref v g)
      else g)"
  by pat_completeness auto
termination
  by (relation "measure (\<lambda>(cfg, chatId, s, totalImages, env, i, ref, v, g). variationsPerRef - v)")
     simp_all

text \<open>The outer loop, \<open>for (let i = 0; i < refs.length; i++)\<close>.\<close>

function refs_loop ::
  "config \<Rightarrow> int \<Rightarrow> session \<Rightarrow> string list \<Rightarrow> nat \<Rightarrow> backend \<Rightarrow> nat \<Rightarrow> gen_state \<Rightarrow> gen_state" where
  "refs_loop cfg chatId s refs totalImages env i g =
     (if i < length refs then
        refs_loop cfg chatId s refs totalImages env (i + 1)
          (variations_loop cfg chatId s totalImages env i (refs ! i) 0 g)
      else g)"
  by pat_completeness auto
termination
  by (relation "measure (\<lambda>(cfg, chatId, s, refs, totalImages, env, i, g). length refs - i)")
     simp_all

declare variations_loop.simps [simp del] refs_loop.simps [simp del]

definition limit_message :: "int \<Rightarrow> int \<Rightarrow> nat \<Rightarrow> string" where
  "limit_message usedToday limit totalImages =
     emoji_warning @ '' Daily limit exceeded. You have used '' @ String_int usedToday @ ''/''
     @ String_int limit @ '' images today. This request would generate ''
     @ String_nat totalImages @ ''.''"

text \<open>
  \<open>bot.command("generate")\<close>: \<open>today\<close> is what \<open>todayStr()\<close> returns inside
  \<open>getUsageCount\<close>, before the batch, and \<open>today'\<close> what it returns inside
  \<open>addUsage\<close>, after it.
\<close>

definition command_generate ::
  "config \<Rightarrow> state \<Rightarrow> int \<Rightarrow> string \<Rightarrow> backend \<Rightarrow> string \<Rightarrow> state \<times> effect list" where
  "command_generate cfg st chatId today env today' =
     (if getUserStatus st (NumId chatId) \<noteq> Some approved then
        (st, [Reply chatId (emoji_lock @ '' Not approved.'') []])
      else
        (case sessions st chatId of
           None \<Rightarrow>
             (st, [Reply chatId ''Set model name first with /model <Name> and upload base images.'' []])
         | Some s \<Rightarrow>
             if falsy_str (modelName s) then
               (st, [Reply chatId ''Set model name first with /model <Name> and upload base images.'' []])
             else if length (baseImages s) < 1 then
               (st, [Reply chatId ''Upload at least one base image (model).'' []])
             else if length (refImages s) < 1 then
               (st, [Reply chatId
                  ''Upload at least one reference image (style/pose) or use /fetch_instagram.'' []])
             else
               (let refs = take 3 (refImages s);
                    totalImages = length refs * variationsPerRef;
                    usedToday = getUsageCount st (NumId chatId) today
                in if usedToday + int totalImages > DAILY_LIMIT cfg then
                     (st, [Reply chatId (limit_message usedToday (DAILY_LIMIT cfg) totalImages) []])
                   else
                     (let g = refs_loop cfg chatId s refs totalImages env 0
                            \<lparr>generatedUrls = [],
                             calls = [Reply chatId
                               (''Generating '' @ String_nat totalImages
                                @ '' images (may take ~20-60s)...'') []]\<rparr>;
                          st1 = addUsage st (NumId chatId) (int totalImages) today';
                          st2 = st1\<lparr>sessions := (sessions st1)(chatId := None)\<rparr>
                      in (st2,
                          calls g @
                          [Reply chatId
                             (emoji_check @ '' Done '' @ em_dash @ '' ''
                              @ String_nat (length (generatedUrls g))
                              @ '' images generated. Today's usage updated.'') []])))))"

section \<open>Handler: /generate when a reply may be rejected\<close>

text \<open>
  What the transport does with the replies the handler of /generate awaits: each is
  delivered, or the call rejects. \<open>announce_sent\<close> is for the reply before the loops,
  \<open>no_image_sent i v\<close> and \<open>error_sent i v\<close> for the two warning replies of the
  iteration for reference \<open>i\<close> and variation \<open>v\<close>, \<open>last_sent\<close> for the reply the
  handler ends with.
\<close>

record sends =
  announce_sent :: bool
  no_image_sent :: "nat \<Rightarrow> nat \<Rightarrow> bool"
  error_sent :: "nat \<Rightarrow> nat \<Rightarrow> bool"
  last_sent :: bool

text \<open>How a handler ends: it returns, or a rejected call leaves it.\<close>

datatype handler_end = Returned | Rejected

text \<open>
  The body of the inner loop with the replies that may be rejected. \<open>Inr\<close> is the loop
  going on, \<open>Inl\<close> a rejection leaving the handler, each with the calls made so far.
  The reply that no image came is awaited inside \<open>try\<close>: its rejection is caught, logged
  and answered with the reply of the \<open>catch\<close> block. The reply of the \<open>catch\<close> block
  is awaited outside any \<open>try\<close>: its rejection leaves the loops and the handler.
  \<open>safeSendPhoto\<close> catches the rejection of its own call.
\<close>

definition generate_one_sends ::
  "config \<Rightarrow> int \<Rightarrow> session \<Rightarrow> nat \<Rightarrow> backend \<Rightarrow> sends \<Rightarrow> nat \<Rightarrow> string \<Rightarrow> nat \<Rightarrow> gen_state
     \<Rightarrow> gen_state + gen_state" where
  "generate_one_sends cfg chatId s totalImages env snt i ref v g =
     (let args = call_args s env i ref v;
          caught = [ConsoleLog ''Generation error'',
                    Reply chatId
                      (emoji_warning @ '' Error during generation. Try again later.'') []]
      in case callWavespeedEdit cfg args (snd (env i v)) of
           Returns wres \<Rightarrow>
             (let url = find_url wres
              in if truthy url then
                   Inr (g\<lparr>generatedUrls := generatedUrls g @ [url],
                          calls := calls g @
                            [CallWavespeedEdit args,
                             SendPhoto chatId url
                               (''Result '' @ String_nat (length (generatedUrls g @ [url]))
                                @ ''/'' @ String_nat totalImages)]\<rparr>)
                 else
                   (let g1 = g\<lparr>calls := calls g @
                           [CallWavespeedEdit args,
                            ConsoleLog ''No url in wavespeed response'',
                            Reply chatId
                              (emoji_warning @ '' Generation returned no image for one variation.'')
                              []]\<rparr>
                    in if no_image_sent snt i v then Inr g1
                       else if error_sent snt i v then Inr (g1\<lparr>calls := calls g1 @ caught\<rparr>)
                       else Inl (g1\<lparr>calls := calls g1 @ caught\<rparr>)))
         | Throws \<Rightarrow>
             (let g1 = g\<lparr>calls := calls g @ CallWavespeedEdit args # caught\<rparr>
              in if error_sent snt i v then Inr g1 else Inl g1))"

function variations_loop_sends ::
  "config \<Rightarrow> int \<Rightarrow> session \<Rightarrow> nat \<Rightarrow> backend \<Rightarrow> sends \<Rightarrow> nat \<Rightarrow> string \<Rightarrow> nat \<Rightarrow> gen_state
     \<Rightarrow> gen_state + gen_state" where
  "variations_loop_sends cfg chatId s totalImages env snt i ref v g =
     (if v < variationsPerRef then
        (case generate_one_sends cfg chatId s totalImages env snt i ref v g of
           Inl g' \<Rightarrow> Inl g'
         | Inr g' \<Rightarrow> variations_loop_sends cfg chatId s totalImages env snt i ref (v + 1) g')
      else Inr g)"
  by pat_completeness auto
termination
  by (relation "measure (\<lambda>(cfg, chatId, s, totalImages, env, snt, i, ref, v, g).
        variationsPerRef - v)") simp_all

function refs_loop_sends ::
  "config \<Rightarrow> int \<Rightarrow> session \<Rightarrow> string list \<Rightarrow> nat \<Rightarrow> backend \<Rightarrow> sends \<Rightarrow> nat \<Rightarrow> gen_state
     \<Rightarrow> gen_state + gen_state" where
  "refs_loop_sends cfg chatId s refs totalImages env snt i g =
     (if i < length refs then
        (case variations_loop_sends cfg chatId s totalImages env snt i (refs ! i) 0 g of
           Inl g' \<Rightarrow> Inl g'
         | Inr g' \<Rightarrow> refs_loop_sends cfg chatId s refs totalImages env snt (i + 1) g')
      else Inr g)"
  by pat_completeness auto
termination
  by (relation "measure (\<lambda>(cfg, chatId, s, refs, totalImages, env, snt, i, g).
        length refs - i)") simp_all

declare variations_loop_sends.simps [simp del] refs_loop_sends.simps [simp del]

definition ended :: "sends \<Rightarrow> handler_end" where
  "ended snt = (if last_sent snt then Returned else Rejected)"

definition command_generate_sends ::
  "config \<Rightarrow> state \<Rightarrow> int \<Rightarrow> string \<Rightarrow> backend \<Rightarrow> sends \<Rightarrow> string
     \<Rightarrow> state \<times> effect list \<times> handler_end" where
  "command_generate_sends cfg st chatId today env snt today' =
     (if getUserStatus st (NumId chatId) \<noteq> Some approved then
        (st, [Reply chatId (emoji_lock @ '' Not approved.'') []], ended snt)
      else
        (case sessions st chatId of
           None \<Rightarrow>
             (st, [Reply chatId ''Set model name first with /model <Name> and upload base images.'' []],
              ended snt)
         | Some s \<Rightarrow>
             if falsy_str (modelName s) then
               (st, [Reply chatId ''Set model name first with /model <Name> and upload base images.'' []],
                ended snt)
             else if length (baseImages s) < 1 then
               (st, [Reply chatId ''Upload at least one base image (model).'' []], ended snt)
             else if length (refImages s) < 1 then
               (st, [Reply chatId
                  ''Upload at least one reference image (style/pose) or use /fetch_instagram.'' []],
                ended snt)
             else
               (let refs = take 3 (refImages s);
                    totalImages = length refs * variationsPerRef;
                    usedToday = getUsageCount st (NumId chatId) today
                in if usedToday + int totalImages > DAILY_LIMIT cfg then
                     (st, [Reply chatId (limit_message usedToday (DAILY_LIMIT cfg) totalImages) []],
                      ended snt)
                   else
                     (let announce = [Reply chatId
                               (''Generating '' @ String_nat totalImages
                                @ '' images (may take ~20-60s)...'') []]
                      in if \<not> announce_sent snt then (st, announce, Rejected)
                         else
                           (case refs_loop_sends cfg chatId s refs totalImages env snt 0
                                   \<lparr>generatedUrls = [], calls = announce\<rparr> of
                              Inl g \<Rightarrow> (st, calls g, Rejected)
                            | Inr g \<Rightarrow>
                                (let st1 = addUsage st (NumId chatId) (int totalImages) today';
                                     st2 = st1\<lparr>sessions := (sessions st1)(chatId := None)\<rparr>
                                 in (st2,
                                     calls g @
                                     [Reply chatId
                                        (emoji_check @ '' Done '' @ em_dash @ '' ''
                                         @ String_nat (length (generatedUrls g))
                                         @ '' images generated. Today's usage updated.'') []],
                                     ended snt)))))))"

section \<open>Events\<close>

text \<open>
  An update of the transport together with what the handler reads from the outside while
  it runs: the clock, the file server, the image source, the backend.
\<close>

datatype event =
    Start int
  | CallbackQuery int sender "string option" string
  | CommandModel int string
  | CommandStatus int string
  | CommandFetchInstagram int string fetch_result
  | CommandGenerate int string backend string
  | Message int sender "string list option" "string option" string

fun handle :: "config \<Rightarrow> state \<Rightarrow> event \<Rightarrow> state \<times> effect list" where
  "handle cfg st (Start chatId) = bot_start st chatId"
| "handle cfg st (CallbackQuery chatId sndr data now) = on_callback_query cfg st chatId sndr data now"
| "handle cfg st (CommandModel chatId text) = command_model st chatId text"
| "handle cfg st (CommandStatus chatId today) = command_status cfg st chatId today"
| "handle cfg st (CommandFetchInstagram chatId text fetched) =
     command_fetch_instagram st chatId text fetched"
| "handle cfg st (CommandGenerate chatId today env today') =
     command_generate cfg st chatId today env today'"
| "handle cfg st (Message chatId sndr photo file_path now) =
     on_message cfg st chatId sndr photo file_path now"

text \<open>Events handled one after the other, each to completion.\<close>

fun run :: "config \<Rightarrow> state \<Rightarrow> event list \<Rightarrow> state" where
  "run cfg st [] = st"
| "run cfg st (e # es) = run cfg (fst (handle cfg st e)) es"

text \<open>The dates the handlers of a run read from the clock, in the order they read them.\<close>

fun days_read :: "event \<Rightarrow> string list" where
  "days_read (CommandStatus chatId today) = [today]"
| "days_read (CommandGenerate chatId today env today') = [today, today']"
| "days_read e = []"

section \<open>Describing a batch and a run\<close>

text \<open>
  The iterations of the two loops over \<open>n\<close> references, as pairs of the index of the
  reference and the variation, in the order the loops reach them.
\<close>

definition iterations :: "nat \<Rightarrow> (nat \<times> nat) list" where
  "iterations n = concat (map (\<lambda>i. map (\<lambda>v. (i, v)) [0..<variationsPerRef]) [0..<n])"

text \<open>
  What the iteration \<open>p\<close> produces: the URL found in the response when the call
  returns one that holds a truthy URL, nothing when the call throws or no URL is found.
\<close>

definition delivered :: "config \<Rightarrow> session \<Rightarrow> string list \<Rightarrow> backend \<Rightarrow> nat \<times> nat \<Rightarrow> jsval option" where
  "delivered cfg s refs env p =
     (case callWavespeedEdit cfg (call_args s env (fst p) (refs ! fst p) (snd p))
             (snd (env (fst p) (snd p))) of
        Returns wres \<Rightarrow> (if truthy (find_url wres) then Some (find_url wres) else None)
      | Throws \<Rightarrow> None)"

text \<open>
  The calls of the iteration \<open>p\<close> when \<open>n\<close> images were produced before it.
\<close>

definition item_calls ::
  "config \<Rightarrow> int \<Rightarrow> session \<Rightarrow> string list \<Rightarrow> nat \<Rightarrow> backend \<Rightarrow> nat \<Rightarrow> nat \<times> nat \<Rightarrow> effect list" where
  "item_calls cfg chatId s refs totalImages env n p =
     CallWavespeedEdit (call_args s env (fst p) (refs ! fst p) (snd p)) #
     (case callWavespeedEdit cfg (call_args s env (fst p) (refs ! fst p) (snd p))
             (snd (env (fst p) (snd p))) of
        Returns wres \<Rightarrow>
          (if truthy (find_url wres) then
             [SendPhoto chatId (find_url wres)
                (''Result '' @ String_nat (n + 1) @ ''/'' @ String_nat totalImages)]
           else
             [ConsoleLog ''No url in wavespeed response'',
              Reply chatId (emoji_warning @ '' Generation returned no image for one variation.'') []])
      | Throws \<Rightarrow>
          [ConsoleLog ''Generation error'',
           Reply chatId (emoji_warning @ '' Error during generation. Try again later.'') []])"

text \<open>The backend calls among the calls of a handler, and the photos sent, in order.\<close>

fun backend_call :: "effect \<Rightarrow> wavespeed_args option" where
  "backend_call (CallWavespeedEdit args) = Some args"
| "backend_call e = None"

definition backend_calls :: "effect list \<Rightarrow> wavespeed_args list" where
  "backend_calls es = List.map_filter backend_call es"

fun photo_sent :: "effect \<Rightarrow> (int \<times> jsval \<times> string) option" where
  "photo_sent (SendPhoto chatId url caption) = Some (chatId, url, caption)"
| "photo_sent e = None"

definition photos_sent :: "effect list \<Rightarrow> (int \<times> jsval \<times> string) list" where
  "photos_sent es = List.map_filter photo_sent es"

text \<open>
  The clock of a run does not go back: the dates read are in order. Dates of the form
  \<open>YYYY-MM-DD\<close> are ordered in time as they are as strings.
\<close>

definition chronological :: "event list \<Rightarrow> bool" where
  "chronological es = sorted (concat (map days_read es))"

section \<open>A scenario\<close>

text \<open>
  The scenario of the specification: the user 7 is approved, has sent /model Aria, one
  base photo and two reference photos; the daily limit is 27. The second of the four
  backend calls throws; the others answer with an image URL, each in one of the three
  shapes the handler reads.
\<close>

definition example_config :: config where
  "example_config =
     \<lparr>ADMIN_ID = ''1'', DAILY_LIMIT = 27, TELEGRAM_TOKEN = ''T'', WAVESPEED_KEY = Some ''K''\<rparr>"

definition example_session :: session where
  "example_session =
     \<lparr>modelName = Some ''Aria'', baseImages = [''b0''], refImages = [''r0'', ''r1''],
      instagramHandles = []\<rparr>"

definition example_state :: state where
  "example_state =
     \<lparr>users = [''7'' \<mapsto> \<lparr>status = approved, username = Some ''aria'', requestedAt = Some ''t''\<rparr>],
      usage = Map.empty,
      sessions = [7 \<mapsto> example_session]\<rparr>"

definition example_backend :: backend where
  "example_backend i v =
     (if i = 0 \<and> v = 0 then (11, Returns (JObj [(''data'', JObj [(''image_url'', JStr ''u1'')])]))
      else if i = 0 \<and> v = 1 then (12, Throws)
      else if i = 1 \<and> v = 0 then (13, Returns (JObj [(''data'', JArr [JObj [(''url'', JStr ''u3'')]])]))
      else (14, Returns (JObj [(''output'', JArr [JObj [(''url'', JStr ''u4'')]])])))"

text \<open>The same scenario when the user has already used \<open>c\<close> images on 2026-11-03.\<close>

definition example_state_used :: "int \<Rightarrow> state" where
  "example_state_used c = example_state\<lparr>usage := [''2026-11-03'' \<mapsto> [''7'' \<mapsto> c]]\<rparr>"

text \<open>
  The transport of the scenario when the user cannot be reached at the moment the failure
  of the second call is reported: that one reply is rejected, every other is delivered.
\<close>

definition example_sends :: sends where
  "example_sends =
     \<lparr>announce_sent = True, no_image_sent = (\<lambda>i v. True),
      error_sent = (\<lambda>i v. \<not> (i = 0 \<and> v = 1)), last_sent = True\<rparr>"

text \<open>
  A run from the empty stores: the user 7 asks for access, the admin approves, the user
  sets a model name and sends three photos, asks for the status, and generates while the
  UTC date changes.
\<close>

definition example_sender :: sender where
  "example_sender = \<lparr>from_id = 7, from_username = Some ''aria'', first_name = None, last_name = None\<rparr>"

definition example_admin :: sender where
  "example_admin = \<lparr>from_id = 1, from_username = Some ''root'', first_name = None, last_name = None\<rparr>"

definition example_run :: "event list" where
  "example_run =
     [Start 7,
      CallbackQuery 7 example_sender (Some ''request_7'') ''2026-11-03T21:00:00.000Z'',
      CallbackQuery 1 example_admin (Some ''approve_7'') ''2026-11-03T22:00:00.000Z'',
      CommandModel 7 ''/model Aria'',
      Message 7 example_sender (Some [''f1'']) (Some ''p1'') ''2026-11-03T23:00:00.000Z'',
      Message 7 example_sender (Some [''f2'']) (Some ''p2'') ''2026-11-03T23:01:00.000Z'',
      Message 7 example_sender (Some [''f3'']) (Some ''p3'') ''2026-11-03T23:02:00.000Z'',
      CommandStatus 7 ''2026-11-03'',
      CommandGenerate 7 ''2026-11-03'' example_backend ''2026-11-04'']"

section \<open>The loops of a batch as a list of iterations\<close>

lemma variations_loop_two:
  "variations_loop cfg chatId s tot env i ref 0 g =
     generate_one cfg chatId s tot env i ref 1 (generate_one cfg chatId s tot env i ref 0 g)"
  by (simp add: variations_loop.simps variationsPerRef_def)

lemma refs_loop_fold:
  "refs_loop cfg chatId s refs tot env i g =
     fold (\<lambda>j. variations_loop cfg chatId s tot env j (refs ! j) 0) [i..<length refs] g"
proof (induction cfg chatId s refs tot env i g rule: refs_loop.induct)
  case (1 cfg chatId s refs tot env i g)
  show ?case
  proof (cases "i < length refs")
    case True
    then have "[i..<length refs] = i # [i + 1..<length refs]"
      by (simp add: upt_conv_Cons)
    with True 1 show ?thesis
      by (simp add: refs_loop.simps [of _ _ _ _ _ _ i])
  next
    case False
    then show ?thesis
      by (simp add: refs_loop.simps [of _ _ _ _ _ _ i])
  qed
qed

lemma iterations_Suc: "iterations (Suc n) = iterations n @ [(n, 0), (n, 1)]"
  by (simp add: iterations_def variationsPerRef_def upt_rec [of 0 2] upt_rec [of 1 2]
        del: upt_Suc) (simp add: numeral_2_eq_2)

lemma fold_iterations:
  "fold (\<lambda>j. variations_loop cfg chatId s tot env j (refs ! j) 0) [0..<n] g =
   fold (\<lambda>p. generate_one cfg chatId s tot env (fst p) (refs ! fst p) (snd p)) (iterations n) g"
proof (induction n)
  case 0
  show ?case by (simp add: iterations_def)
next
  case (Suc n)
  then show ?case
    by (simp add: iterations_Suc variations_loop_two)
qed

lemma generate_one_urls:
  "generatedUrls (generate_one cfg chatId s tot env (fst p) (refs ! fst p) (snd p) g) =
     generatedUrls g @ (case delivered cfg s refs env p of Some u \<Rightarrow> [u] | None \<Rightarrow> [])"
  by (simp add: generate_one_def delivered_def Let_def split: backend_result.splits)

lemma generate_one_calls:
  "calls (generate_one cfg chatId s tot env (fst p) (refs ! fst p) (snd p) g) =
     calls g @ item_calls cfg chatId s refs tot env (length (generatedUrls g)) p"
  by (simp add: generate_one_def item_calls_def Let_def split: backend_result.splits)

lemma fold_generate_one_urls:
  "generatedUrls (fold (\<lambda>p. generate_one cfg chatId s tot env (fst p) (refs ! fst p) (snd p)) ps g)
     = generatedUrls g @ List.map_filter (delivered cfg s refs env) ps"
proof (induction ps arbitrary: g)
  case Nil
  show ?case by simp
next
  case (Cons p ps)
  show ?case
    by (simp add: Cons.IH generate_one_urls split: option.splits)
qed

lemma fold_generate_one_calls:
  "calls (fold (\<lambda>p. generate_one cfg chatId s tot env (fst p) (refs ! fst p) (snd p)) ps g)
     = calls g @ concat (map (\<lambda>k. item_calls cfg chatId s refs tot env
           (length (generatedUrls g) + length (List.map_filter (delivered cfg s refs env) (take k ps)))
           (ps ! k)) [0..<length ps])"
proof (induction ps arbitrary: g)
  case Nil
  show ?case by simp
next
  case (Cons p ps)
  have upt: "[0..<length (p # ps)] = 0 # map Suc [0..<length ps]"
    by (simp add: upt_conv_Cons map_Suc_upt del: upt_Suc)
  show ?case
    unfolding upt
    by (simp add: Cons.IH generate_one_urls generate_one_calls o_def
          split: option.splits)
qed

section \<open>What an admitted batch does\<close>

lemma command_generate_admitted:
  assumes "getUserStatus st (NumId chatId) = Some approved"
      and "sessions st chatId = Some s"
      and "\<not> falsy_str (modelName s)"
      and "baseImages s \<noteq> []"
      and "refImages s \<noteq> []"
      and "refs = take 3 (refImages s)"
      and "tot = length refs * variationsPerRef"
      and "getUsageCount st (NumId chatId) today + int tot \<le> DAILY_LIMIT cfg"
      and "its = iterations (length refs)"
  shows "command_generate cfg st chatId today env today' =
     ((addUsage st (NumId chatId) (int tot) today')\<lparr>sessions := (sessions st)(chatId := None)\<rparr>,
      Reply chatId (''Generating '' @ String_nat tot @ '' images (may take ~20-60s)...'') []
      # concat (map (\<lambda>k. item_calls cfg chatId s refs tot env
                     (length (List.map_filter (delivered cfg s refs env) (take k its))) (its ! k))
                 [0..<length its])
      @ [Reply chatId (emoji_check @ '' Done '' @ em_dash @ '' ''
            @ String_nat (length (List.map_filter (delivered cfg s refs env) its))
            @ '' images generated. Today's usage updated.'') []])"
proof -
  have loop: "refs_loop cfg chatId s rs n env 0 g =
      fold (\<lambda>p. generate_one cfg chatId s n env (fst p) (rs ! fst p) (snd p))
        (iterations (length rs)) g" for g rs n
    by (simp add: refs_loop_fold fold_iterations)
  have sess: "sessions (addUsage st (NumId chatId) n today') = sessions st" for n
    by (simp add: addUsage_def Let_def)
  note q = assms(8) [unfolded assms(7) assms(6)]
  from assms(1-5) q show ?thesis
    unfolding command_generate_def assms(9) assms(7) assms(6)
    by (simp add: Let_def loop sess fold_generate_one_urls fold_generate_one_calls
          del: of_nat_mult)
qed


lemma map_filter_app: "List.map_filter f (xs @ ys) = List.map_filter f xs @ List.map_filter f ys"
  by (simp add: List.map_filter_def)

lemma backend_calls_append: "backend_calls (xs @ ys) = backend_calls xs @ backend_calls ys"
  by (simp add: backend_calls_def map_filter_app)

lemma photos_sent_append: "photos_sent (xs @ ys) = photos_sent xs @ photos_sent ys"
  by (simp add: photos_sent_def map_filter_app)

lemma backend_calls_item:
  "backend_calls (item_calls cfg chatId s refs tot env n p) =
     [call_args s env (fst p) (refs ! fst p) (snd p)]"
  by (simp add: backend_calls_def item_calls_def split: backend_result.splits)

lemma photos_sent_item:
  "photos_sent (item_calls cfg chatId s refs tot env n p) =
     (case delivered cfg s refs env p of
        Some u \<Rightarrow> [(chatId, u, ''Result '' @ String_nat (n + 1) @ ''/'' @ String_nat tot)]
      | None \<Rightarrow> [])"
  by (simp add: photos_sent_def item_calls_def delivered_def split: backend_result.splits)

lemma backend_calls_items:
  "backend_calls (concat (map (\<lambda>k. item_calls cfg chatId s refs tot env (c k) (ps ! k)) ks)) =
     map (\<lambda>k. call_args s env (fst (ps ! k)) (refs ! fst (ps ! k)) (snd (ps ! k))) ks"
  by (induction ks) (simp_all add: backend_calls_append backend_calls_item, simp add: backend_calls_def)

lemma backend_calls_batch:
  "backend_calls (concat (map (\<lambda>k. item_calls cfg chatId s refs tot env (c k) (ps ! k))
       [0..<length ps])) =
     map (\<lambda>p. call_args s env (fst p) (refs ! fst p) (snd p)) ps"
proof -
  have "map (\<lambda>k. call_args s env (fst (ps ! k)) (refs ! fst (ps ! k)) (snd (ps ! k)))
          [0..<length ps]
        = map (\<lambda>p. call_args s env (fst p) (refs ! fst p) (snd p)) (map ((!) ps) [0..<length ps])"
    by (simp add: o_def)
  then show ?thesis
    by (simp only: backend_calls_items map_nth)
qed

lemma photos_sent_batch:
  "photos_sent (concat (map (\<lambda>k. item_calls cfg chatId s refs tot env
        (length (List.map_filter (delivered cfg s refs env) (take k ps))) (ps ! k))
       [0..<length ps])) =
     map (\<lambda>j. (chatId, List.map_filter (delivered cfg s refs env) ps ! j,
                ''Result '' @ String_nat (j + 1) @ ''/'' @ String_nat tot))
       [0..<length (List.map_filter (delivered cfg s refs env) ps)]"
proof (induction ps rule: rev_induct)
  case Nil
  show ?case by (simp add: photos_sent_def)
next
  case (snoc p ps)
  define D where "D = delivered cfg s refs env"
  define F where "F qs k = item_calls cfg chatId s refs tot env
                   (length (List.map_filter D (take k qs))) (qs ! k)" for qs k
  define G where "G us j = (chatId, us ! j :: jsval,
                ''Result '' @ String_nat (j + 1) @ ''/'' @ String_nat tot)" for us j
  define N where "N = length (List.map_filter D ps)"
  have IH: "photos_sent (concat (map (F ps) [0..<length ps])) = map (G (List.map_filter D ps)) [0..<N]"
    using snoc.IH unfolding D_def F_def G_def N_def by simp
  have items: "map (F (ps @ [p])) [0..<length ps] = map (F ps) [0..<length ps]"
    by (rule map_cong) (simp_all add: F_def nth_append)
  have lastF: "F (ps @ [p]) (length ps) = item_calls cfg chatId s refs tot env N p"
    by (simp add: F_def N_def)
  have "map (F (ps @ [p])) [0..<length (ps @ [p])]
          = map (F (ps @ [p])) [0..<length ps] @ [F (ps @ [p]) (length ps)]"
    by simp
  then have lhs: "photos_sent (concat (map (F (ps @ [p])) [0..<length (ps @ [p])]))
          = map (G (List.map_filter D ps)) [0..<N]
            @ (case D p of
                 Some u \<Rightarrow> [(chatId, u, ''Result '' @ String_nat (N + 1) @ ''/'' @ String_nat tot)]
               | None \<Rightarrow> [])"
    by (simp only: items lastF concat_append photos_sent_append IH photos_sent_item D_def
          concat.simps append_Nil2 map_append list.map)
  have rhs: "map (G (List.map_filter D (ps @ [p]))) [0..<length (List.map_filter D (ps @ [p]))]
          = map (G (List.map_filter D ps)) [0..<N]
            @ (case D p of
                 Some u \<Rightarrow> [(chatId, u, ''Result '' @ String_nat (N + 1) @ ''/'' @ String_nat tot)]
               | None \<Rightarrow> [])"
  proof (cases "D p")
    case None
    then show ?thesis by (simp add: map_filter_app N_def)
  next
    case (Some u)
    have "map (G (List.map_filter D ps @ [u])) [0..<N] = map (G (List.map_filter D ps)) [0..<N]"
      by (rule map_cong) (simp_all add: G_def N_def nth_append)
    with Some show ?thesis
      by (simp add: map_filter_app N_def [symmetric]) (simp add: G_def N_def)
  qed
  from lhs rhs show ?case
    unfolding D_def F_def G_def by simp
qed

lemma concat_map_upt_split:
  assumes "k < n"
  shows "concat (map F [0..<n]) = concat (map F [0..<k]) @ F k @ concat (map F [Suc k..<n])"
proof -
  from assms have "[0..<n] = [0..<k] @ [k..<n]"
    using upt_add_eq_append [of 0 k "n - k"] by simp
  with assms have "[0..<n] = [0..<k] @ k # [Suc k..<n]"
    by (simp add: upt_conv_Cons)
  then show ?thesis by simp
qed

lemma iterations_pairs:
  "iterations n = concat (map (\<lambda>i. [(i, 0), (i, 1)]) [0..<n])"
  by (induction n) (simp_all add: iterations_Suc, simp add: iterations_def)

lemma length_iterations: "length (iterations n) = n * variationsPerRef"
  by (induction n) (simp_all add: iterations_Suc variationsPerRef_def, simp add: iterations_def)

lemma fst_iterations: "p \<in> set (iterations n) \<Longrightarrow> fst p < n"
  by (induction n) (auto simp add: iterations_Suc iterations_def)

lemma distinct_iterations: "distinct (iterations n)"
proof (induction n)
  case 0
  show ?case by (simp add: iterations_def)
next
  case (Suc n)
  have "(n, v) \<notin> set (iterations n)" for v
    using fst_iterations [of "(n, v)" n] by auto
  with Suc show ?case
    by (simp add: iterations_Suc)
qed


lemma item_position:
  assumes "eff = r # concat (map (\<lambda>k. item_calls cfg chatId s refs tot env (c k) (ps ! k))
                      [0..<length ps]) @ [z]"
      and "backend_call r = None"
      and "k < length ps"
  shows "\<exists>pre post. eff = pre @ item_calls cfg chatId s refs tot env (c k) (ps ! k) @ post
           \<and> length (backend_calls pre) = k"
proof -
  let ?F = "\<lambda>k. item_calls cfg chatId s refs tot env (c k) (ps ! k)"
  let ?pre = "r # concat (map ?F [0..<k])"
  let ?post = "concat (map ?F [Suc k..<length ps]) @ [z]"
  have "eff = ?pre @ ?F k @ ?post"
    using assms(1) concat_map_upt_split [OF assms(3), of ?F] by simp
  moreover have "length (backend_calls ?pre) = k"
    using assms(2) backend_calls_items [of cfg chatId s refs tot env c ps "[0..<k]"]
    by (simp add: backend_calls_def)
  ultimately show ?thesis by blast
qed

lemma admitted_args:
  assumes "baseImages s \<noteq> []" and "\<not> falsy_str (modelName s)" and "i < length (take 3 (refImages s))"
  shows "call_args s env i (take 3 (refImages s) ! i) v =
     \<lparr>baseImage = Some (hd (baseImages s)), refImage = refImages s ! i,
      prompt = ''A realistic portrait of '' @ the (modelName s)
        @ '', matching the pose/outfit of the reference, ultra realistic, cinematic lighting, consistent face, photo quality.'',
      seed = fst (env i v)\<rparr>"
  using assms
  by (cases "baseImages s"; cases "modelName s") (simp_all add: call_args_def make_prompt_def falsy_str_def)

lemma admitted_effects:
  assumes "getUserStatus st (NumId chatId) = Some approved"
      and "sessions st chatId = Some s"
      and "\<not> falsy_str (modelName s)"
      and "baseImages s \<noteq> []"
      and "refImages s \<noteq> []"
      and "n = min 3 (length (refImages s))"
      and "getUsageCount st (NumId chatId) today + int (n * 2) \<le> DAILY_LIMIT cfg"
      and "its = concat (map (\<lambda>i. [(i, 0), (i, 1)]) [0..<n])"
      and "D = delivered cfg s (take 3 (refImages s)) env"
  shows "command_generate cfg st chatId today env today' =
     ((addUsage st (NumId chatId) (int (n * 2)) today')\<lparr>sessions := (sessions st)(chatId := None)\<rparr>,
      Reply chatId (''Generating '' @ String_nat (n * 2) @ '' images (may take ~20-60s)...'') []
      # concat (map (\<lambda>k. item_calls cfg chatId s (take 3 (refImages s)) (n * 2) env
                     (length (List.map_filter D (take k its))) (its ! k))
                 [0..<length its])
      @ [Reply chatId (emoji_check @ '' Done '' @ em_dash @ '' ''
            @ String_nat (length (List.map_filter D its))
            @ '' images generated. Today's usage updated.'') []])"
proof -
  have len: "length (take 3 (refImages s)) = n"
    using assms(6) by simp
  have tot: "n * 2 = length (take 3 (refImages s)) * variationsPerRef"
    using len by (simp add: variationsPerRef_def)
  have its: "its = iterations (length (take 3 (refImages s)))"
    using assms(8) len by (simp only: iterations_pairs)
  show ?thesis
    unfolding assms(9)
    by (rule command_generate_admitted [OF assms(1-5) refl tot _ its])
       (use assms(7) in simp)
qed


lemma its_members:
  assumes "its = concat (map (\<lambda>i. [(i, 0), (i, 1)]) [0..<n])" and "p \<in> set its"
  shows "fst p < n"
  using assms by auto

lemma example_ready:
  "getUserStatus example_state (NumId 7) = Some approved"
  "sessions example_state 7 = Some example_session"
  "\<not> falsy_str (modelName example_session)"
  "baseImages example_session \<noteq> []"
  "refImages example_session \<noteq> []"
  "getUsageCount example_state (NumId 7) ''2026-11-03''
     + int (min 3 (length (refImages example_session)) * 2) \<le> DAILY_LIMIT example_config"
  by (simp_all add: example_state_def example_session_def example_config_def getUserStatus_def
        String_int_def digit_char_def falsy_str_def getUsageCount_def)



lemma getUsageCount_addUsage:
  "getUsageCount (addUsage st u a d) u' d' =
     (if d' = d \<and> String u' = String u then getUsageCount st u d + a else getUsageCount st u' d')"
  by (simp add: getUsageCount_def addUsage_def Let_def split: option.splits)

lemma getUsageCount_sessions [simp]:
  "getUsageCount (st\<lparr>sessions := x\<rparr>) u d = getUsageCount st u d"
  by (simp add: getUsageCount_def)

lemma command_generate_rejected:
  assumes "getUserStatus st (NumId chatId) = Some approved"
      and "sessions st chatId = Some s"
      and "\<not> falsy_str (modelName s)"
      and "baseImages s \<noteq> []"
      and "refImages s \<noteq> []"
      and "refs = take 3 (refImages s)"
      and "tot = length refs * variationsPerRef"
      and "getUsageCount st (NumId chatId) today + int tot > DAILY_LIMIT cfg"
  shows "command_generate cfg st chatId today env today' =
     (st, [Reply chatId
            (limit_message (getUsageCount st (NumId chatId) today) (DAILY_LIMIT cfg) tot) []])"
proof -
  note q = assms(8) [unfolded assms(7) assms(6)]
  from assms(1-5) q show ?thesis
    unfolding command_generate_def assms(7) assms(6)
    by (simp add: Let_def del: of_nat_mult)
qed

lemma rejected_effects:
  assumes "getUserStatus st (NumId chatId) = Some approved"
      and "sessions st chatId = Some s"
      and "\<not> falsy_str (modelName s)"
      and "baseImages s \<noteq> []"
      and "refImages s \<noteq> []"
      and "n = min 3 (length (refImages s))"
      and "getUsageCount st (NumId chatId) today + int (n * 2) > DAILY_LIMIT cfg"
  shows "command_generate cfg st chatId today env today' =
     (st, [Reply chatId
            (limit_message (getUsageCount st (NumId chatId) today) (DAILY_LIMIT cfg) (n * 2)) []])"
proof -
  have tot: "n * 2 = length (take 3 (refImages s)) * variationsPerRef"
    using assms(6) by (simp add: variationsPerRef_def)
  show ?thesis
    by (rule command_generate_rejected [OF assms(1-5) refl tot assms(7)])
qed

lemma backend_calls_between_replies:
  "backend_calls (Reply a b c # xs @ [Reply d e f]) = backend_calls xs"
  by (simp add: backend_calls_def map_filter_app)

lemma photos_sent_between_replies:
  "photos_sent (Reply a b c # xs @ [Reply d e f]) = photos_sent xs"
  by (simp add: photos_sent_def map_filter_app)

lemma admitted_backend_calls:
  assumes "getUserStatus st (NumId chatId) = Some approved"
      and "sessions st chatId = Some s"
      and "\<not> falsy_str (modelName s)"
      and "baseImages s \<noteq> []"
      and "refImages s \<noteq> []"
      and "n = min 3 (length (refImages s))"
      and "getUsageCount st (NumId chatId) today + int (n * 2) \<le> DAILY_LIMIT cfg"
      and "its = concat (map (\<lambda>i. [(i, 0), (i, 1)]) [0..<n])"
  shows "backend_calls (snd (command_generate cfg st chatId today env today')) =
     map (\<lambda>p. \<lparr>baseImage = Some (hd (baseImages s)), refImage = refImages s ! fst p,
              prompt = ''A realistic portrait of '' @ the (modelName s)
                @ '', matching the pose/outfit of the reference, ultra realistic, cinematic lighting, consistent face, photo quality.'',
              seed = fst (env (fst p) (snd p))\<rparr>) its"
proof -
  let ?refs = "take 3 (refImages s)"
  have len: "length ?refs = n"
    using assms(6) by simp
  have "backend_calls (snd (command_generate cfg st chatId today env today'))
      = map (\<lambda>p. call_args s env (fst p) (?refs ! fst p) (snd p)) its"
    unfolding admitted_effects [OF assms(1-8) refl]
    by (simp only: snd_conv backend_calls_between_replies backend_calls_batch)
  also have "\<dots> = map (\<lambda>p. \<lparr>baseImage = Some (hd (baseImages s)), refImage = refImages s ! fst p,
              prompt = ''A realistic portrait of '' @ the (modelName s)
                @ '', matching the pose/outfit of the reference, ultra realistic, cinematic lighting, consistent face, photo quality.'',
              seed = fst (env (fst p) (snd p))\<rparr>) its"
  proof (rule map_cong [OF refl])
    fix p assume "p \<in> set its"
    then have "fst p < length ?refs"
      using its_members [OF assms(8)] len by simp
    then show "call_args s env (fst p) (?refs ! fst p) (snd p) =
        \<lparr>baseImage = Some (hd (baseImages s)), refImage = refImages s ! fst p,
              prompt = ''A realistic portrait of '' @ the (modelName s)
                @ '', matching the pose/outfit of the reference, ultra realistic, cinematic lighting, consistent face, photo quality.'',
              seed = fst (env (fst p) (snd p))\<rparr>"
      by (rule admitted_args [OF assms(4) assms(3)])
  qed
  finally show ?thesis .
qed

lemma length_pairs: "length (concat (map (\<lambda>i. [(i, 0::nat), (i, 1)]) [0..<n])) = n * 2"
  using length_iterations [of n] by (simp only: iterations_pairs variationsPerRef_def)

lemma distinct_pairs: "distinct (concat (map (\<lambda>i. [(i, 0::nat), (i, 1)]) [0..<n]))"
  using distinct_iterations [of n] by (simp only: iterations_pairs)

lemma example_used_ready:
  "getUserStatus (example_state_used c) (NumId 7) = Some approved"
  "sessions (example_state_used c) 7 = Some example_session"
  "getUsageCount (example_state_used c) (NumId 7) ''2026-11-03'' = c"
  "min 3 (length (refImages example_session)) = 2"
  by (simp_all add: example_state_used_def example_state_def example_session_def
        getUserStatus_def String_int_def digit_char_def getUsageCount_def)

lemma delivered_None_iff:
  "(delivered cfg s refs env p = None) =
     (callWavespeedEdit cfg a (snd (env (fst p) (snd p))) = Throws
      \<or> (\<exists>w. callWavespeedEdit cfg a (snd (env (fst p) (snd p))) = Returns w
               \<and> \<not> truthy (find_url w)))"
  by (auto simp add: delivered_def callWavespeedEdit_def split: backend_result.splits)

lemma item_calls_failed_explicit:
  assumes "delivered cfg s refs env p = None"
  shows "item_calls cfg chatId s refs tot env n p =
     [CallWavespeedEdit (call_args s env (fst p) (refs ! fst p) (snd p)),
      ConsoleLog (if callWavespeedEdit cfg a (snd (env (fst p) (snd p))) = Throws
                  then ''Generation error'' else ''No url in wavespeed response''),
      Reply chatId (emoji_warning @
        (if callWavespeedEdit cfg a (snd (env (fst p) (snd p))) = Throws
         then '' Error during generation. Try again later.''
         else '' Generation returned no image for one variation.'')) []]"
  using assms
  by (auto simp add: item_calls_def delivered_def callWavespeedEdit_def
        split: backend_result.splits if_splits)

lemma take_first:
  "take 3 xs = map (\<lambda>i. xs ! i) [0..<min 3 (length xs)]"
proof -
  have "take 3 xs = map (\<lambda>i. take 3 xs ! i) [0..<length (take 3 xs)]"
    by (simp only: map_nth)
  also have "\<dots> = map (\<lambda>i. xs ! i) [0..<min 3 (length xs)]"
    by (rule map_cong) (simp_all add: min.commute)
  finally show ?thesis .
qed

lemma example_not_ready:
  "getUserStatus empty_state (NumId 7) \<noteq> Some approved"
  "getUserStatus (example_state\<lparr>sessions := Map.empty\<rparr>) (NumId 7) = Some approved"
  "sessions (example_state\<lparr>sessions := Map.empty\<rparr>) 7 = None"
  "getUserStatus (example_state\<lparr>sessions := [7 \<mapsto> example_session\<lparr>baseImages := []\<rparr>]\<rparr>)
     (NumId 7) = Some approved"
  "sessions (example_state\<lparr>sessions := [7 \<mapsto> example_session\<lparr>baseImages := []\<rparr>]\<rparr>) 7
     = Some (example_session\<lparr>baseImages := []\<rparr>)"
  "getUserStatus (example_state\<lparr>sessions := [7 \<mapsto> example_session\<lparr>refImages := []\<rparr>]\<rparr>)
     (NumId 7) = Some approved"
  "sessions (example_state\<lparr>sessions := [7 \<mapsto> example_session\<lparr>refImages := []\<rparr>]\<rparr>) 7
     = Some (example_session\<lparr>refImages := []\<rparr>)"
  by (simp_all add: empty_state_def example_state_def getUserStatus_def String_int_def
        digit_char_def)


section \<open>The two embeddings of /generate agree when every reply is delivered\<close>

lemma generate_one_sends_delivered:
  assumes "no_image_sent snt i v" and "error_sent snt i v"
  shows "generate_one_sends cfg chatId s tot env snt i ref v g =
     Inr (generate_one cfg chatId s tot env i ref v g)"
  using assms
  by (simp add: generate_one_sends_def generate_one_def Let_def split: backend_result.splits)

lemma variations_loop_sends_delivered:
  assumes "\<forall>i v. no_image_sent snt i v \<and> error_sent snt i v"
  shows "variations_loop_sends cfg chatId s tot env snt i ref v g =
     Inr (variations_loop cfg chatId s tot env i ref v g)"
proof (induction cfg chatId s tot env i ref v g rule: variations_loop.induct)
  case (1 cfg chatId s tot env i ref v g)
  show ?case
  proof (cases "v < variationsPerRef")
    case True
    with 1 assms show ?thesis
      by (simp add: variations_loop_sends.simps [of _ _ _ _ _ _ _ _ v]
            variations_loop.simps [of _ _ _ _ _ _ _ v] generate_one_sends_delivered)
  next
    case False
    then show ?thesis
      by (simp add: variations_loop_sends.simps [of _ _ _ _ _ _ _ _ v]
            variations_loop.simps [of _ _ _ _ _ _ _ v])
  qed
qed

lemma refs_loop_sends_delivered:
  assumes "\<forall>i v. no_image_sent snt i v \<and> error_sent snt i v"
  shows "refs_loop_sends cfg chatId s refs tot env snt i g =
     Inr (refs_loop cfg chatId s refs tot env i g)"
proof (induction cfg chatId s refs tot env i g rule: refs_loop.induct)
  case (1 cfg chatId s refs tot env i g)
  show ?case
  proof (cases "i < length refs")
    case True
    with 1 show ?thesis
      by (simp add: refs_loop_sends.simps [of _ _ _ _ _ _ _ i]
            refs_loop.simps [of _ _ _ _ _ _ i] variations_loop_sends_delivered [OF assms])
  next
    case False
    then show ?thesis
      by (simp add: refs_loop_sends.simps [of _ _ _ _ _ _ _ i]
            refs_loop.simps [of _ _ _ _ _ _ i])
  qed
qed

lemma command_generate_sends_delivered:
  assumes "announce_sent snt" and "\<forall>i v. no_image_sent snt i v \<and> error_sent snt i v"
  shows "command_generate_sends cfg st chatId today env snt today' =
     (fst (command_generate cfg st chatId today env today'),
      snd (command_generate cfg st chatId today env today'), ended snt)"
  using assms(1)
  by (simp add: command_generate_sends_def command_generate_def Let_def
        refs_loop_sends_delivered [OF assms(2)] split: option.splits)

text \<open>
  What the handler does with a failed item when every reply is delivered. An iteration
  produces nothing exactly when its call of \<open>callWavespeedEdit\<close> throws or returns a
  response in which no truthy URL is found. Such an iteration is reported to the user by
  one reply directly after its call (and logged), and the loops go on: the handler makes
  exactly one call for each requested variation, \<open>total\<close> calls in all, none repeated.
  After the loops the usage of the user for the day is the usage before plus the full
  \<open>total\<close>, the session of the user is deleted and nothing else changes in the
  sessions or the registry, and the last reply states the number of images produced,
  which is the number of photos sent. By \<open>command_generate_sends_delivered\<close> this is
  what \<open>command_generate_sends\<close> does when the transport delivers the announcement and
  every warning.
\<close>

lemma batch_with_every_reply_delivered:
  assumes "getUserStatus st (NumId chatId) = Some approved"
      and "sessions st chatId = Some s"
      and "\<not> falsy_str (modelName s)"
      and "baseImages s \<noteq> []"
      and "refImages s \<noteq> []"
      and "n = min 3 (length (refImages s))"
      and "getUsageCount st (NumId chatId) today + int (n * 2) \<le> DAILY_LIMIT cfg"
      and "its = concat (map (\<lambda>i. [(i, 0), (i, 1)]) [0..<n])"
      and "D = delivered cfg s (take 3 (refImages s)) env"
      and "args = (\<lambda>p. \<lparr>baseImage = Some (hd (baseImages s)), refImage = refImages s ! fst p,
              prompt = ''A realistic portrait of '' @ the (modelName s)
                @ '', matching the pose/outfit of the reference, ultra realistic, cinematic lighting, consistent face, photo quality.'',
              seed = fst (env (fst p) (snd p))\<rparr>)"
      and "outcome = (\<lambda>p. callWavespeedEdit cfg (args p) (snd (env (fst p) (snd p))))"
      and "res = command_generate cfg st chatId today env today'"
  shows "(\<forall>p. (D p = None) =
            (outcome p = Throws \<or> (\<exists>w. outcome p = Returns w \<and> \<not> truthy (find_url w))))
     \<and> backend_calls (snd res) = map args its \<and> distinct its \<and> length its = n * 2
     \<and> (\<forall>k<length its. D (its ! k) = None \<longrightarrow>
          (\<exists>pre post.
             snd res = pre @
               [CallWavespeedEdit (args (its ! k)),
                ConsoleLog (if outcome (its ! k) = Throws then ''Generation error''
                            else ''No url in wavespeed response''),
                Reply chatId (emoji_warning @
                  (if outcome (its ! k) = Throws
                   then '' Error during generation. Try again later.''
                   else '' Generation returned no image for one variation.'')) []] @ post
             \<and> length (backend_calls pre) = k))
     \<and> getUsageCount (fst res) (NumId chatId) today'
         = getUsageCount st (NumId chatId) today' + int (n * 2)
     \<and> sessions (fst res) = (sessions st)(chatId := None)
     \<and> users (fst res) = users st
     \<and> last (snd res) =
         Reply chatId (emoji_check @ '' Done '' @ em_dash @ '' ''
            @ String_nat (length (List.map_filter D its))
            @ '' images generated. Today's usage updated.'') []
     \<and> length (photos_sent (snd res)) = length (List.map_filter D its)"
proof -
  let ?refs = "take 3 (refImages s)"
  let ?F = "\<lambda>k. item_calls cfg chatId s ?refs (n * 2) env
                 (length (List.map_filter D (take k its))) (its ! k)"
  let ?r = "Reply chatId (''Generating '' @ String_nat (n * 2) @ '' images (may take ~20-60s)...'') []"
  let ?z = "Reply chatId (emoji_check @ '' Done '' @ em_dash @ '' ''
            @ String_nat (length (List.map_filter D its))
            @ '' images generated. Today's usage updated.'') []"
  note adm = admitted_effects [OF assms(1-9), of today']
  have eff: "snd res = ?r # concat (map ?F [0..<length its]) @ [?z]"
    unfolding assms(12) adm by simp
  have st': "fst res = (addUsage st (NumId chatId) (int (n * 2)) today')
                \<lparr>sessions := (sessions st)(chatId := None)\<rparr>"
    unfolding assms(12) adm by simp
  have len: "length ?refs = n"
    using assms(6) by simp
  have arg: "call_args s env (fst p) (?refs ! fst p) (snd p) = args p" if "p \<in> set its" for p
  proof -
    from that have "fst p < length ?refs"
      using its_members [OF assms(8)] len by simp
    then show ?thesis
      unfolding assms(10) by (rule admitted_args [OF assms(4) assms(3)])
  qed
  have c1: "\<forall>p. (D p = None) =
            (outcome p = Throws \<or> (\<exists>w. outcome p = Returns w \<and> \<not> truthy (find_url w)))"
    unfolding assms(9) assms(11) by (simp only: delivered_None_iff [where a = "args _"]) simp
  have c2: "backend_calls (snd res) = map args its"
    unfolding assms(12) assms(10)
    by (rule admitted_backend_calls [OF assms(1-8)])
  have c3: "distinct its" "length its = n * 2"
    unfolding assms(8) by (rule distinct_pairs, rule length_pairs)
  have c4: "\<exists>pre post.
             snd res = pre @
               [CallWavespeedEdit (args (its ! k)),
                ConsoleLog (if outcome (its ! k) = Throws then ''Generation error''
                            else ''No url in wavespeed response''),
                Reply chatId (emoji_warning @
                  (if outcome (its ! k) = Throws
                   then '' Error during generation. Try again later.''
                   else '' Generation returned no image for one variation.'')) []] @ post
             \<and> length (backend_calls pre) = k"
    if k: "k < length its" and u: "D (its ! k) = None" for k
  proof -
    from item_position [OF eff _ k] obtain pre post
      where "snd res = pre @ ?F k @ post" and "length (backend_calls pre) = k"
      by auto
    moreover have "?F k = [CallWavespeedEdit (args (its ! k)),
                ConsoleLog (if outcome (its ! k) = Throws then ''Generation error''
                            else ''No url in wavespeed response''),
                Reply chatId (emoji_warning @
                  (if outcome (its ! k) = Throws
                   then '' Error during generation. Try again later.''
                   else '' Generation returned no image for one variation.'')) []]"
      unfolding assms(11)
      using item_calls_failed_explicit [OF u [unfolded assms(9)], where a = "args (its ! k)"]
        arg [of "its ! k"] k
      by simp
    ultimately show ?thesis by metis
  qed
  have c5: "getUsageCount (fst res) (NumId chatId) today'
         = getUsageCount st (NumId chatId) today' + int (n * 2)"
    unfolding st' by (simp add: getUsageCount_addUsage del: of_nat_mult)
  have c6: "sessions (fst res) = (sessions st)(chatId := None)" "users (fst res) = users st"
    unfolding st' by (simp_all add: addUsage_def Let_def)
  have c7: "last (snd res) = ?z"
    unfolding eff by simp
  have c8: "length (photos_sent (snd res)) = length (List.map_filter D its)"
    unfolding eff assms(9)
    by (simp only: photos_sent_between_replies photos_sent_batch length_map length_upt)
  from c1 c2 c3 c4 c5 c6 c7 c8 show ?thesis by blast
qed


section \<open>The ledger along a run\<close>

lemma setUserStatus_usage [simp]: "usage (setUserStatus st u x now) = usage st"
  by (simp add: setUserStatus_def Let_def)

lemma ensureUserPending_usage [simp]: "usage (snd (ensureUserPending st u name now)) = usage st"
  by (simp add: ensureUserPending_def)

lemma handle_usage_unchanged:
  assumes "\<And>chatId today env today'. e \<noteq> CommandGenerate chatId today env today'"
  shows "usage (fst (handle cfg st e)) = usage st"
proof (cases e)
  case (Start chatId)
  then show ?thesis by (simp add: bot_start_def)
next
  case (CallbackQuery chatId sndr data now)
  then show ?thesis by (simp add: on_callback_query_def Let_def)
next
  case (CommandModel chatId cmd)
  then show ?thesis by (simp add: command_model_def Let_def)
next
  case (CommandStatus chatId today)
  then show ?thesis by (simp add: command_status_def Let_def)
next
  case (CommandFetchInstagram chatId cmd fetched)
  then show ?thesis
    by (simp add: command_fetch_instagram_def Let_def split: fetch_result.splits)
next
  case (CommandGenerate chatId today env today')
  with assms show ?thesis by blast
next
  case (Message chatId sndr photo file_path now)
  then show ?thesis
    by (simp add: on_message_def Let_def split: option.splits)
qed

lemma command_generate_not_ready:
  assumes "\<not> (getUserStatus st (NumId chatId) = Some approved
            \<and> (\<exists>s. sessions st chatId = Some s \<and> \<not> falsy_str (modelName s)
                     \<and> baseImages s \<noteq> [] \<and> refImages s \<noteq> []))"
  shows "fst (command_generate cfg st chatId today env today') = st"
  using assms unfolding command_generate_def
  by (auto split: option.splits)

lemma command_generate_usage:
  "usage (fst (command_generate cfg st chatId today env today')) = usage st
   \<or> (\<exists>tot. getUsageCount st (NumId chatId) today + int tot \<le> DAILY_LIMIT cfg
          \<and> usage (fst (command_generate cfg st chatId today env today'))
              = usage (addUsage st (NumId chatId) (int tot) today'))"
proof (cases "getUserStatus st (NumId chatId) = Some approved
            \<and> (\<exists>s. sessions st chatId = Some s \<and> \<not> falsy_str (modelName s)
                     \<and> baseImages s \<noteq> [] \<and> refImages s \<noteq> [])")
  case False
  then have "fst (command_generate cfg st chatId today env today') = st"
    by (rule command_generate_not_ready)
  then show ?thesis by simp
next
  case True
  then obtain s where r: "getUserStatus st (NumId chatId) = Some approved"
    "sessions st chatId = Some s" "\<not> falsy_str (modelName s)"
    "baseImages s \<noteq> []" "refImages s \<noteq> []"
    by blast
  define tot where "tot = length (take 3 (refImages s)) * variationsPerRef"
  show ?thesis
  proof (cases "getUsageCount st (NumId chatId) today + int tot \<le> DAILY_LIMIT cfg")
    case True
    have "usage (fst (command_generate cfg st chatId today env today'))
              = usage (addUsage st (NumId chatId) (int tot) today')"
      unfolding command_generate_admitted [OF r refl tot_def True refl]
      by simp
    with True show ?thesis by blast
  next
    case False
    then have "getUsageCount st (NumId chatId) today + int tot > DAILY_LIMIT cfg"
      by simp
    from command_generate_rejected [OF r refl tot_def this]
    show ?thesis by simp
  qed
qed

lemma addUsage_entry:
  "usage (addUsage st u a d) d' = Some day \<Longrightarrow> day k = Some c \<Longrightarrow>
     (d' = d \<and> k = String u \<and> c = getUsageCount st u d + a)
     \<or> (\<exists>day'. usage st d' = Some day' \<and> day' k = Some c)"
  by (auto simp add: addUsage_def getUsageCount_def Let_def split: option.splits if_splits)

lemma getUsageCount_bounds:
  assumes "\<forall>d day u c. usage st d = Some day \<longrightarrow> day u = Some c \<longrightarrow> 0 \<le> c \<and> c \<le> L"
  shows "0 \<le> getUsageCount st u d" and "0 \<le> L \<Longrightarrow> getUsageCount st u d \<le> L"
  using assms by (auto simp add: getUsageCount_def split: option.splits)

lemma getUsageCount_no_day: "usage st d = None \<Longrightarrow> getUsageCount st u d = 0"
  by (simp add: getUsageCount_def)

lemma dom_usage_addUsage: "dom (usage (addUsage st u a d)) = insert d (dom (usage st))"
  by (simp add: addUsage_def Let_def)

lemma command_generate_within_limit:
  fixes today today' :: string
  assumes inv: "\<forall>d day u c. usage st d = Some day \<longrightarrow> day u = Some c \<longrightarrow> 0 \<le> c \<and> c \<le> DAILY_LIMIT cfg"
      and keys: "\<forall>d\<in>dom (usage st). d \<le> today"
      and le: "today \<le> today'"
      and st': "st' = fst (command_generate cfg st chatId today env today')"
  shows "(\<forall>d day u c. usage st' d = Some day \<longrightarrow> day u = Some c \<longrightarrow> 0 \<le> c \<and> c \<le> DAILY_LIMIT cfg)
       \<and> (\<forall>d\<in>dom (usage st'). d \<le> today')"
proof -
  from command_generate_usage [of cfg st chatId today env today']
  consider (same) "usage st' = usage st"
    | (added) tot where "getUsageCount st (NumId chatId) today + int tot \<le> DAILY_LIMIT cfg"
        "usage st' = usage (addUsage st (NumId chatId) (int tot) today')"
    unfolding st' by blast
  then show ?thesis
  proof cases
    case same
    with inv keys le show ?thesis by force
  next
    case added
    have used0: "0 \<le> getUsageCount st (NumId chatId) today"
      by (rule getUsageCount_bounds(1) [OF inv])
    have new: "0 \<le> getUsageCount st (NumId chatId) today' + int tot
        \<and> getUsageCount st (NumId chatId) today' + int tot \<le> DAILY_LIMIT cfg"
    proof (cases "today' = today")
      case True
      with added(1) used0 show ?thesis by simp
    next
      case False
      with le have "today < today'" by simp
      with keys have "today' \<notin> dom (usage st)" by force
      then have "getUsageCount st (NumId chatId) today' = 0"
        by (simp add: getUsageCount_no_day domIff)
      with added(1) used0 show ?thesis by simp
    qed
    have a: "0 \<le> c \<and> c \<le> DAILY_LIMIT cfg" if "usage st' d = Some day" "day u = Some c" for d day u c
      using addUsage_entry [OF that(1) [unfolded added(2)] that(2)] new inv by blast
    have b: "d \<le> today'" if "d \<in> dom (usage st')" for d
      using that keys le unfolding added(2) dom_usage_addUsage by force
    from a b show ?thesis by blast
  qed
qed


lemma run_within_limit:
  assumes "sorted (concat (map days_read es))"
      and "\<forall>d day u c. usage st d = Some day \<longrightarrow> day u = Some c \<longrightarrow> 0 \<le> c \<and> c \<le> DAILY_LIMIT cfg"
      and "\<forall>d\<in>dom (usage st). \<forall>x\<in>set (concat (map days_read es)). d \<le> x"
  shows "\<forall>d day u c. usage (run cfg st es) d = Some day \<longrightarrow> day u = Some c
           \<longrightarrow> 0 \<le> c \<and> c \<le> DAILY_LIMIT cfg"
  using assms
proof (induction es arbitrary: st)
  case Nil
  then show ?case by simp
next
  case (Cons e es)
  let ?st1 = "fst (handle cfg st e)"
  from Cons.prems(1) have sorted_rest: "sorted (concat (map days_read es))"
    by (simp add: sorted_append)
  show ?case
  proof (cases "\<exists>chatId today env today'. e = CommandGenerate chatId today env today'")
    case False
    then have same: "usage ?st1 = usage st"
      using handle_usage_unchanged [of e cfg st] by blast
    have "\<forall>d day u c. usage (run cfg ?st1 es) d = Some day \<longrightarrow> day u = Some c
           \<longrightarrow> 0 \<le> c \<and> c \<le> DAILY_LIMIT cfg"
    proof (rule Cons.IH [OF sorted_rest])
      show "\<forall>d day u c. usage ?st1 d = Some day \<longrightarrow> day u = Some c
              \<longrightarrow> 0 \<le> c \<and> c \<le> DAILY_LIMIT cfg"
        using Cons.prems(2) unfolding same .
      show "\<forall>d\<in>dom (usage ?st1). \<forall>x\<in>set (concat (map days_read es)). d \<le> x"
        using Cons.prems(3) unfolding same by simp
    qed
    then show ?thesis by simp
  next
    case True
    then obtain chatId today env today'
      where e: "e = CommandGenerate chatId today env today'"
      by blast
    from Cons.prems(1) have le: "today \<le> today'"
      and later: "\<forall>x\<in>set (concat (map days_read es)). today' \<le> x"
      unfolding e by (simp_all add: sorted_append)
    from Cons.prems(3) have keys: "\<forall>d\<in>dom (usage st). d \<le> today"
      unfolding e by simp
    have st1: "?st1 = fst (command_generate cfg st chatId today env today')"
      unfolding e by simp
    note step = command_generate_within_limit [OF Cons.prems(2) keys le st1]
    have "\<forall>d day u c. usage (run cfg ?st1 es) d = Some day \<longrightarrow> day u = Some c
           \<longrightarrow> 0 \<le> c \<and> c \<le> DAILY_LIMIT cfg"
    proof (rule Cons.IH [OF sorted_rest])
      show "\<forall>d day u c. usage ?st1 d = Some day \<longrightarrow> day u = Some c
              \<longrightarrow> 0 \<le> c \<and> c \<le> DAILY_LIMIT cfg"
        using step by blast
      show "\<forall>d\<in>dom (usage ?st1). \<forall>x\<in>set (concat (map days_read es)). d \<le> x"
        using step later by (meson order_trans)
    qed
    then show ?thesis by simp
  qed
qed

lemma example_model_name: "trim ''Aria'' = ''Aria''"
  by code_simp

lemma example_run_usage:
  "getUsageCount (run example_config empty_state example_run) (NumId 7) ''2026-11-04'' = 2"
  by (simp add: example_run_def example_sender_def example_admin_def example_config_def
        empty_state_def bot_start_def on_callback_query_def command_model_def on_message_def
        command_status_def command_generate_def ensureUserPending_def setUserStatus_def
        getUserStatus_def getUsageCount_def addUsage_def falsy_str_def startsWith_def or_str_def
        at_index_def String_int_def digit_char_def new_session_def variationsPerRef_def
        example_model_name Let_def)

section \<open>User registry: first contact\<close>

text \<open>
  C7. For a user (a numeric chat id) with no record, \<open>ensureUserPending\<close> returns
  true and adds exactly one record, with status pending, under the user's key (every other
  key and both other stores are as before), after which \<open>getUserStatus\<close> of that
  user is pending and a second call, with any name and time, returns false and changes
  nothing. For a user whose record exists the call returns false and changes nothing.
\<close>

theorem ensureUserPending_creates_once:
  "(users st (String (NumId n)) = None \<longrightarrow>
      (\<exists>st'. ensureUserPending st (NumId n) name now = (True, st')
         \<and> users st' = (users st)(String (NumId n) \<mapsto>
              \<lparr>status = pending,
               username = (if name = [] then None else Some name),
               requestedAt = Some now\<rparr>)
         \<and> dom (users st') = insert (String (NumId n)) (dom (users st))
         \<and> (\<forall>k. k \<noteq> String (NumId n) \<longrightarrow> users st' k = users st k)
         \<and> usage st' = usage st \<and> sessions st' = sessions st
         \<and> getUserStatus st' (NumId n) = Some pending
         \<and> ensureUserPending st' (NumId n) name' now' = (False, st')))
   \<and> (users st (String (NumId n)) \<noteq> None \<longrightarrow>
        ensureUserPending st (NumId n) name now = (False, st))"
  by (simp add: ensureUserPending_def getUserStatus_def)

theorem ensureUserPending_creates_once_witness:
  "users empty_state (String (NumId 42)) = None
   \<and> fst (ensureUserPending empty_state (NumId 42) ''aria'' ''2026-01-01T00:00:00.000Z'')
   \<and> users (snd (ensureUserPending empty_state (NumId 42) ''aria''
         ''2026-01-01T00:00:00.000Z'')) ''42''
       = Some \<lparr>status = pending, username = Some ''aria'',
               requestedAt = Some ''2026-01-01T00:00:00.000Z''\<rparr>
   \<and> dom (users (snd (ensureUserPending empty_state (NumId 42) ''aria''
         ''2026-01-01T00:00:00.000Z''))) = {''42''}
   \<and> getUserStatus (snd (ensureUserPending empty_state (NumId 42) ''aria''
         ''2026-01-01T00:00:00.000Z'')) (NumId 42) = Some pending
   \<and> ensureUserPending (snd (ensureUserPending empty_state (NumId 42) ''aria''
         ''2026-01-01T00:00:00.000Z'')) (NumId 42) ''bob'' ''2026-01-02T00:00:00.000Z''
       = (False, snd (ensureUserPending empty_state (NumId 42) ''aria''
         ''2026-01-01T00:00:00.000Z''))"
proof -
  have h: "users empty_state (String (NumId 42)) = None"
    by (simp add: empty_state_def)
  have k: "String (NumId 42) = ''42''"
    by (simp add: String_int_def digit_char_def)
  from ensureUserPending_creates_once
    [of empty_state 42 "''aria''" "''2026-01-01T00:00:00.000Z''" "''bob''"
        "''2026-01-02T00:00:00.000Z''", THEN conjunct1, rule_format, OF h]
  obtain st' where
    "ensureUserPending empty_state (NumId 42) ''aria'' ''2026-01-01T00:00:00.000Z'' = (True, st')"
    "users st' = (users empty_state)(String (NumId 42) \<mapsto>
        \<lparr>status = pending, username = (if ''aria'' = [] then None else Some ''aria''),
         requestedAt = Some ''2026-01-01T00:00:00.000Z''\<rparr>)"
    "dom (users st') = insert (String (NumId 42)) (dom (users empty_state))"
    "getUserStatus st' (NumId 42) = Some pending"
    "ensureUserPending st' (NumId 42) ''bob'' ''2026-01-02T00:00:00.000Z'' = (False, st')"
    by blast
  with h show ?thesis
    unfolding k by (simp add: empty_state_def)
qed

section \<open>Order of the backend calls and of the results\<close>





section \<open>The quota check\<close>

text \<open>
  C1. When the preconditions of /generate hold (the user is approved, the session has a
  model name, a base image and a reference image), the handler rejects the request, that
  is it returns the state as it was (no usage, session or registry change) after one reply,
  the limit message, and no backend call, exactly when the usage of the user today plus
  the number of images requested is above \<open>DAILY_LIMIT\<close>. The message states the
  usage and the limit. Otherwise the batch is admitted: the handler announces it, makes
  the requested number of backend calls, adds the requested number to the usage and
  deletes the session. A request that reaches the limit exactly is admitted.
\<close>

theorem quota_check_rejects_whole_batch:
  assumes "getUserStatus st (NumId chatId) = Some approved"
      and "sessions st chatId = Some s"
      and "\<not> falsy_str (modelName s)"
      and "baseImages s \<noteq> []"
      and "refImages s \<noteq> []"
      and "n = min 3 (length (refImages s))"
      and "used = getUsageCount st (NumId chatId) today"
      and "rejection = (st, [Reply chatId
             (emoji_warning @ '' Daily limit exceeded. You have used '' @ String_int used @ ''/''
              @ String_int (DAILY_LIMIT cfg) @ '' images today. This request would generate ''
              @ String_nat (n * 2) @ ''.'') []])"
      and "res = command_generate cfg st chatId today env today'"
  shows "(res = rejection) = (used + int (n * 2) > DAILY_LIMIT cfg)
     \<and> backend_calls (snd rejection) = []
     \<and> (used + int (n * 2) \<le> DAILY_LIMIT cfg \<longrightarrow>
          hd (snd res) = Reply chatId (''Generating '' @ String_nat (n * 2)
                            @ '' images (may take ~20-60s)...'') []
          \<and> length (backend_calls (snd res)) = n * 2
          \<and> getUsageCount (fst res) (NumId chatId) today'
              = getUsageCount st (NumId chatId) today' + int (n * 2)
          \<and> sessions (fst res) chatId = None)
     \<and> (used + int (n * 2) = DAILY_LIMIT cfg \<longrightarrow> res \<noteq> rejection)"
proof -
  have rej: "rejection = (st, [Reply chatId (limit_message used (DAILY_LIMIT cfg) (n * 2)) []])"
    unfolding assms(8) by (simp add: limit_message_def)
  have no_calls: "backend_calls (snd rejection) = []"
    unfolding rej by (simp add: backend_calls_def)
  have over: "res = rejection" if "used + int (n * 2) > DAILY_LIMIT cfg"
    using rejected_effects [OF assms(1-6) that [unfolded assms(7)]]
    unfolding rej assms(9) assms(7) by simp
  have under: "hd (snd res) = Reply chatId (''Generating '' @ String_nat (n * 2)
                            @ '' images (may take ~20-60s)...'') []
          \<and> length (backend_calls (snd res)) = n * 2
          \<and> getUsageCount (fst res) (NumId chatId) today'
              = getUsageCount st (NumId chatId) today' + int (n * 2)
          \<and> sessions (fst res) chatId = None
          \<and> res \<noteq> rejection"
    if le: "used + int (n * 2) \<le> DAILY_LIMIT cfg"
  proof -
    note adm = admitted_effects [OF assms(1-6) le [unfolded assms(7)] refl refl, of env today']
    have calls: "length (backend_calls (snd res)) = n * 2"
      unfolding assms(9)
        admitted_backend_calls [OF assms(1-6) le [unfolded assms(7)] refl]
      by (simp only: length_map length_pairs)
    have hd: "hd (snd res) = Reply chatId (''Generating '' @ String_nat (n * 2)
                            @ '' images (may take ~20-60s)...'') []"
      unfolding assms(9) adm by simp
    have us: "getUsageCount (fst res) (NumId chatId) today'
              = getUsageCount st (NumId chatId) today' + int (n * 2)"
      unfolding assms(9) adm by (simp add: getUsageCount_addUsage del: of_nat_mult)
    have se: "sessions (fst res) chatId = None"
      unfolding assms(9) adm by simp
    have "hd (snd res) \<noteq> hd (snd rejection)"
      unfolding hd assms(8) by (simp add: emoji_warning_def)
    then have "res \<noteq> rejection" by auto
    with calls hd us se show ?thesis by simp
  qed
  from over under no_calls show ?thesis
    by (metis linorder_not_less order_refl)
qed


theorem quota_check_rejects_whole_batch_witness:
  "getUserStatus (example_state_used 25) (NumId 7) = Some approved
   \<and> sessions (example_state_used 25) 7 = Some example_session
   \<and> \<not> falsy_str (modelName example_session)
   \<and> baseImages example_session \<noteq> []
   \<and> refImages example_session \<noteq> []
   \<and> command_generate example_config (example_state_used 25) 7 ''2026-11-03'' example_backend
         ''2026-11-03''
       = (example_state_used 25,
          [Reply 7 (emoji_warning
             @ '' Daily limit exceeded. You have used 25/27 images today. This request would generate 4.'')
             []])
   \<and> getUserStatus (example_state_used 23) (NumId 7) = Some approved
   \<and> sessions (example_state_used 23) 7 = Some example_session
   \<and> getUsageCount (example_state_used 23) (NumId 7) ''2026-11-03'' + 4 = DAILY_LIMIT example_config
   \<and> length (backend_calls (snd (command_generate example_config (example_state_used 23) 7
         ''2026-11-03'' example_backend ''2026-11-03''))) = 4
   \<and> getUsageCount (fst (command_generate example_config (example_state_used 23) 7
         ''2026-11-03'' example_backend ''2026-11-03'')) (NumId 7) ''2026-11-03'' = 27"
proof -
  note over = quota_check_rejects_whole_batch
    [where st = "example_state_used 25" and cfg = example_config and today = "''2026-11-03''"
       and env = example_backend and today' = "''2026-11-03''",
     OF example_used_ready(1,2) example_ready(3-5) refl refl refl refl]
  note at_limit = quota_check_rejects_whole_batch
    [where st = "example_state_used 23" and cfg = example_config and today = "''2026-11-03''"
       and env = example_backend and today' = "''2026-11-03''",
     OF example_used_ready(1,2) example_ready(3-5) refl refl refl refl]
  have a: "command_generate example_config (example_state_used 25) 7 ''2026-11-03'' example_backend
         ''2026-11-03''
       = (example_state_used 25,
          [Reply 7 (emoji_warning
             @ '' Daily limit exceeded. You have used 25/27 images today. This request would generate 4.'')
             []])"
    using over [THEN conjunct1]
    by (simp add: example_used_ready example_config_def String_int_def String_nat_def digit_char_def)
  have b: "length (backend_calls (snd (command_generate example_config (example_state_used 23) 7
         ''2026-11-03'' example_backend ''2026-11-03''))) = 4
     \<and> getUsageCount (fst (command_generate example_config (example_state_used 23) 7
         ''2026-11-03'' example_backend ''2026-11-03'')) (NumId 7) ''2026-11-03'' = 27"
    using at_limit [THEN conjunct2, THEN conjunct2, THEN conjunct1]
    by (simp add: example_used_ready example_config_def)
  from a b show ?thesis
    using example_used_ready(1-3) [of 25] example_used_ready(1-3) [of 23] example_ready(3-5)
    by (simp add: example_config_def)
qed

section \<open>Failures inside a batch\<close>

text \<open>
  C2. The property: in an admitted batch a backend call that throws, or whose response
  holds no image URL, is reported as the failure of that one item and the loops go on to
  the remaining iterations, one attempt for each requested variation; afterwards the usage
  of the user grows by the full number requested, the session is deleted unconditionally,
  and the summary states the number produced. The handler does this as long as the
  transport delivers every reply it awaits (\<open>batch_with_every_reply_delivered\<close>). It
  does not when the transport rejects the reply that reports the failed item: that reply
  is awaited inside the \<open>catch\<close> block, outside any \<open>try\<close>, and the handler of
  /generate has no \<open>try\<close> around its body, where \<open>safeSendPhoto\<close> and the handlers
  of \<open>callback_query\<close> and \<open>message\<close> have one. The rejection leaves both loops and
  the handler before \<open>addUsage\<close> and \<open>sessions.delete\<close>. In the scenario the second
  of four calls throws and the reply reporting it is rejected: the third and the fourth
  call are never made, no summary is sent, the usage of the day stays 0 where the property
  asks for 4, and the session is still there.
\<close>

theorem rejected_report_leaves_batch_unfinished:
  "command_generate_sends example_config example_state 7 ''2026-11-03'' example_backend
      example_sends ''2026-11-03''
   = (example_state,
      [Reply 7 ''Generating 4 images (may take ~20-60s)...'' [],
       CallWavespeedEdit \<lparr>baseImage = Some ''b0'', refImage = ''r0'',
         prompt = make_prompt example_session, seed = 11\<rparr>,
       SendPhoto 7 (JStr ''u1'') ''Result 1/4'',
       CallWavespeedEdit \<lparr>baseImage = Some ''b0'', refImage = ''r0'',
         prompt = make_prompt example_session, seed = 12\<rparr>,
       ConsoleLog ''Generation error'',
       Reply 7 (emoji_warning @ '' Error during generation. Try again later.'') []],
      Rejected)
   \<and> snd (example_backend 0 1) = Throws
   \<and> \<not> error_sent example_sends 0 1
   \<and> getUsageCount example_state (NumId 7) ''2026-11-03''
        + int (min 3 (length (refImages example_session)) * 2) \<le> DAILY_LIMIT example_config
   \<and> getUsageCount example_state (NumId 7) ''2026-11-03'' = 0
   \<and> sessions example_state 7 = Some example_session"
  by (simp add: command_generate_sends_def example_config_def example_state_def
      example_session_def example_sends_def getUserStatus_def String_int_def digit_char_def
      falsy_str_def getUsageCount_def variationsPerRef_def refs_loop_sends.simps
      variations_loop_sends.simps generate_one_sends_def call_args_def callWavespeedEdit_def
      example_backend_def find_url_def or_val_def String_nat_def Let_def make_prompt_def)

section \<open>The generation plan\<close>

text \<open>
  C3. For a session with reference images (the other preconditions holding), the
  references used are the first \<open>min(3, len(refImages))\<close> elements of
  \<open>refImages\<close>, in order, with 2 variations for each, and the number requested is
  \<open>min(3, len(refImages)) * 2\<close>: it is the number stated in the limit message when
  the quota check fails; when the check passes it is the number announced, the number of
  backend calls, whose references are each selected reference twice in order, and the
  number added to the usage.
\<close>

theorem plan_selects_first_three_references:
  assumes "getUserStatus st (NumId chatId) = Some approved"
      and "sessions st chatId = Some s"
      and "\<not> falsy_str (modelName s)"
      and "baseImages s \<noteq> []"
      and "refImages s \<noteq> []"
      and "n = min 3 (length (refImages s))"
      and "used = getUsageCount st (NumId chatId) today"
      and "res = command_generate cfg st chatId today env today'"
  shows "take 3 (refImages s) = map (\<lambda>i. refImages s ! i) [0..<n]
     \<and> variationsPerRef = 2
     \<and> 0 < n
     \<and> (used + int (n * 2) > DAILY_LIMIT cfg \<longrightarrow>
          res = (st, [Reply chatId (limit_message used (DAILY_LIMIT cfg) (n * 2)) []]))
     \<and> (used + int (n * 2) \<le> DAILY_LIMIT cfg \<longrightarrow>
          hd (snd res) = Reply chatId (''Generating '' @ String_nat (n * 2)
                            @ '' images (may take ~20-60s)...'') []
          \<and> map refImage (backend_calls (snd res))
              = concat (map (\<lambda>i. [refImages s ! i, refImages s ! i]) [0..<n])
          \<and> length (backend_calls (snd res)) = n * 2
          \<and> getUsageCount (fst res) (NumId chatId) today'
              = getUsageCount st (NumId chatId) today' + int (n * 2))"
proof -
  have a: "take 3 (refImages s) = map (\<lambda>i. refImages s ! i) [0..<n]"
    unfolding assms(6) by (rule take_first)
  have b: "0 < n"
    using assms(5) unfolding assms(6) by simp
  have over: "res = (st, [Reply chatId (limit_message used (DAILY_LIMIT cfg) (n * 2)) []])"
    if "used + int (n * 2) > DAILY_LIMIT cfg"
    unfolding assms(8) assms(7)
    by (rule rejected_effects [OF assms(1-6) that [unfolded assms(7)]])
  have under: "hd (snd res) = Reply chatId (''Generating '' @ String_nat (n * 2)
                            @ '' images (may take ~20-60s)...'') []
          \<and> map refImage (backend_calls (snd res))
              = concat (map (\<lambda>i. [refImages s ! i, refImages s ! i]) [0..<n])
          \<and> length (backend_calls (snd res)) = n * 2
          \<and> getUsageCount (fst res) (NumId chatId) today'
              = getUsageCount st (NumId chatId) today' + int (n * 2)"
    if le: "used + int (n * 2) \<le> DAILY_LIMIT cfg"
  proof -
    note q = le [unfolded assms(7)]
    note adm = admitted_effects [OF assms(1-6) q refl refl, of env today']
    note calls = admitted_backend_calls [OF assms(1-6) q refl, of env today']
    have "hd (snd res) = Reply chatId (''Generating '' @ String_nat (n * 2)
                            @ '' images (may take ~20-60s)...'') []"
      unfolding assms(8) adm by simp
    moreover have "map refImage (backend_calls (snd res))
              = concat (map (\<lambda>i. [refImages s ! i, refImages s ! i]) [0..<n])"
      unfolding assms(8) calls by (simp add: map_concat o_def)
    moreover have "length (backend_calls (snd res)) = n * 2"
      unfolding assms(8) calls by (simp only: length_map length_pairs)
    moreover have "getUsageCount (fst res) (NumId chatId) today'
              = getUsageCount st (NumId chatId) today' + int (n * 2)"
      unfolding assms(8) adm by (simp add: getUsageCount_addUsage del: of_nat_mult)
    ultimately show ?thesis by simp
  qed
  from a b over under show ?thesis
    by (simp add: variationsPerRef_def)
qed

theorem plan_selects_first_three_references_witness:
  "getUserStatus example_state (NumId 7) = Some approved
   \<and> sessions example_state 7 = Some example_session
   \<and> \<not> falsy_str (modelName example_session)
   \<and> baseImages example_session \<noteq> []
   \<and> refImages example_session \<noteq> []
   \<and> getUsageCount example_state (NumId 7) ''2026-11-03'' + int (2 * 2)
        \<le> DAILY_LIMIT example_config
   \<and> take 3 (refImages example_session) = [''r0'', ''r1'']
   \<and> map refImage (backend_calls (snd (command_generate example_config example_state 7
         ''2026-11-03'' example_backend ''2026-11-03''))) = [''r0'', ''r0'', ''r1'', ''r1'']
   \<and> hd (snd (command_generate example_config example_state 7
         ''2026-11-03'' example_backend ''2026-11-03''))
       = Reply 7 ''Generating 4 images (may take ~20-60s)...'' []"
proof -
  note t = plan_selects_first_three_references
    [where st = example_state and cfg = example_config and today = "''2026-11-03''"
       and env = example_backend and today' = "''2026-11-03''",
     OF example_ready(1-5) refl refl refl]
  have le: "getUsageCount example_state (NumId 7) ''2026-11-03''
      + int (min 3 (length (refImages example_session)) * 2) \<le> DAILY_LIMIT example_config"
    by (rule example_ready(6))
  have n: "min 3 (length (refImages example_session)) = 2"
    by (simp add: example_session_def)
  have a: "take 3 (refImages example_session) = [''r0'', ''r1'']"
    using t [THEN conjunct1] unfolding n
    by (simp add: example_session_def upt_rec [of 0] upt_rec [of "Suc 0"])
  from t le have u: "hd (snd (command_generate example_config example_state 7
         ''2026-11-03'' example_backend ''2026-11-03''))
       = Reply 7 (''Generating '' @ String_nat (min 3 (length (refImages example_session)) * 2)
                            @ '' images (may take ~20-60s)...'') []
     \<and> map refImage (backend_calls (snd (command_generate example_config example_state 7
         ''2026-11-03'' example_backend ''2026-11-03'')))
        = concat (map (\<lambda>i. [refImages example_session ! i, refImages example_session ! i])
            [0..<min 3 (length (refImages example_session))])"
    by blast
  have b: "map refImage (backend_calls (snd (command_generate example_config example_state 7
         ''2026-11-03'' example_backend ''2026-11-03''))) = [''r0'', ''r0'', ''r1'', ''r1'']"
    using u [THEN conjunct2] unfolding n
    by (simp add: example_session_def upt_rec [of 0] upt_rec [of "Suc 0"])
  have c: "hd (snd (command_generate example_config example_state 7
         ''2026-11-03'' example_backend ''2026-11-03''))
       = Reply 7 ''Generating 4 images (may take ~20-60s)...'' []"
    using u [THEN conjunct1] unfolding n
    by (simp add: String_nat_def digit_char_def)
  from a b c show ?thesis
    using example_ready(1-5) le [unfolded n] by simp
qed

section \<open>Preconditions of /generate\<close>

text \<open>
  C4. The /generate handler checks, in this order, that the user is approved, that a
  session exists with a model name, that the session has a base image, and that it has a
  reference image. The first check that fails decides the answer, whatever the later ones
  would give: the handler returns the state as it was (no session, usage or registry
  change) after one reply and no backend call, and the four replies are four different
  texts.
\<close>

theorem generate_preconditions_in_order:
  "(getUserStatus st (NumId chatId) \<noteq> Some approved \<longrightarrow>
      command_generate cfg st chatId today env today'
        = (st, [Reply chatId (emoji_lock @ '' Not approved.'') []]))
 \<and> (getUserStatus st (NumId chatId) = Some approved
      \<and> (sessions st chatId = None \<or> (\<exists>s. sessions st chatId = Some s \<and> falsy_str (modelName s))) \<longrightarrow>
      command_generate cfg st chatId today env today'
        = (st, [Reply chatId ''Set model name first with /model <Name> and upload base images.'' []]))
 \<and> (getUserStatus st (NumId chatId) = Some approved
      \<and> sessions st chatId = Some s \<and> \<not> falsy_str (modelName s) \<and> baseImages s = [] \<longrightarrow>
      command_generate cfg st chatId today env today'
        = (st, [Reply chatId ''Upload at least one base image (model).'' []]))
 \<and> (getUserStatus st (NumId chatId) = Some approved
      \<and> sessions st chatId = Some s \<and> \<not> falsy_str (modelName s) \<and> baseImages s \<noteq> []
      \<and> refImages s = [] \<longrightarrow>
      command_generate cfg st chatId today env today'
        = (st, [Reply chatId
             ''Upload at least one reference image (style/pose) or use /fetch_instagram.'' []]))
 \<and> distinct [emoji_lock @ '' Not approved.'',
       ''Set model name first with /model <Name> and upload base images.'',
       ''Upload at least one base image (model).'',
       ''Upload at least one reference image (style/pose) or use /fetch_instagram.'']
 \<and> backend_calls [Reply chatId msg []] = []"
  by (auto simp add: command_generate_def emoji_lock_def backend_calls_def)

theorem generate_preconditions_in_order_witness:
  "getUserStatus empty_state (NumId 7) \<noteq> Some approved
   \<and> command_generate example_config empty_state 7 ''2026-11-03'' example_backend ''2026-11-03''
       = (empty_state, [Reply 7 (emoji_lock @ '' Not approved.'') []])
   \<and> getUserStatus (example_state\<lparr>sessions := Map.empty\<rparr>) (NumId 7) = Some approved
   \<and> sessions (example_state\<lparr>sessions := Map.empty\<rparr>) 7 = None
   \<and> command_generate example_config (example_state\<lparr>sessions := Map.empty\<rparr>) 7 ''2026-11-03''
         example_backend ''2026-11-03''
       = (example_state\<lparr>sessions := Map.empty\<rparr>,
          [Reply 7 ''Set model name first with /model <Name> and upload base images.'' []])
   \<and> baseImages (example_session\<lparr>baseImages := []\<rparr>) = []
   \<and> command_generate example_config
         (example_state\<lparr>sessions := [7 \<mapsto> example_session\<lparr>baseImages := []\<rparr>]\<rparr>) 7
         ''2026-11-03'' example_backend ''2026-11-03''
       = (example_state\<lparr>sessions := [7 \<mapsto> example_session\<lparr>baseImages := []\<rparr>]\<rparr>,
          [Reply 7 ''Upload at least one base image (model).'' []])
   \<and> refImages (example_session\<lparr>refImages := []\<rparr>) = []
   \<and> command_generate example_config
         (example_state\<lparr>sessions := [7 \<mapsto> example_session\<lparr>refImages := []\<rparr>]\<rparr>) 7
         ''2026-11-03'' example_backend ''2026-11-03''
       = (example_state\<lparr>sessions := [7 \<mapsto> example_session\<lparr>refImages := []\<rparr>]\<rparr>,
          [Reply 7 ''Upload at least one reference image (style/pose) or use /fetch_instagram.'' []])"
proof -
  note a = generate_preconditions_in_order
    [where st = empty_state and chatId = 7 and cfg = example_config and today = "''2026-11-03''"
       and env = example_backend and today' = "''2026-11-03''", THEN conjunct1]
  note b = generate_preconditions_in_order
    [where st = "example_state\<lparr>sessions := Map.empty\<rparr>" and chatId = 7 and cfg = example_config
       and today = "''2026-11-03''" and env = example_backend and today' = "''2026-11-03''",
     THEN conjunct2, THEN conjunct1]
  note c = generate_preconditions_in_order
    [where st = "example_state\<lparr>sessions := [7 \<mapsto> example_session\<lparr>baseImages := []\<rparr>]\<rparr>"
       and s = "example_session\<lparr>baseImages := []\<rparr>"
       and chatId = 7 and cfg = example_config
       and today = "''2026-11-03''" and env = example_backend and today' = "''2026-11-03''",
     THEN conjunct2, THEN conjunct2, THEN conjunct1]
  note d = generate_preconditions_in_order
    [where st = "example_state\<lparr>sessions := [7 \<mapsto> example_session\<lparr>refImages := []\<rparr>]\<rparr>"
       and s = "example_session\<lparr>refImages := []\<rparr>"
       and chatId = 7 and cfg = example_config
       and today = "''2026-11-03''" and env = example_backend and today' = "''2026-11-03''",
     THEN conjunct2, THEN conjunct2, THEN conjunct2, THEN conjunct1]
  from a b c d show ?thesis
    using example_not_ready
    by (simp add: example_session_def falsy_str_def)
qed

section \<open>Classifying a photo\<close>

text \<open>
  C5. A photo from an approved user, once its file is resolved, is appended to
  \<open>baseImages\<close> of the session of the user (a new session when there is none) when
  the session has no model name or fewer than 2 base images, and to \<open>refImages\<close>
  otherwise; nothing else changes. In particular, for a user with no session the first two
  photos become the two base images although no model name is set, and after /model with a
  name the next photo becomes a reference image.
\<close>

theorem photo_goes_to_base_or_reference:
  assumes "getUserStatus st (NumId chatId) = Some approved"
      and "sizes \<noteq> []"
      and "s = (case sessions st chatId of Some s \<Rightarrow> s | None \<Rightarrow> new_session)"
      and "url = ''https://api.telegram.org/file/bot'' @ TELEGRAM_TOKEN cfg @ ''/'' @ fp"
      and "st' = fst (on_message cfg st chatId sndr (Some sizes) (Some fp) now)"
  shows "(falsy_str (modelName s) \<or> length (baseImages s) < 2 \<longrightarrow>
           sessions st' = (sessions st)(chatId \<mapsto> s\<lparr>baseImages := baseImages s @ [url]\<rparr>))
       \<and> (\<not> (falsy_str (modelName s) \<or> length (baseImages s) < 2) \<longrightarrow>
           sessions st' = (sessions st)(chatId \<mapsto> s\<lparr>refImages := refImages s @ [url]\<rparr>))
       \<and> (\<exists>s'. sessions st' chatId = Some s'
             \<and> ((baseImages s' = baseImages s @ [url] \<and> refImages s' = refImages s)
                  = (falsy_str (modelName s) \<or> length (baseImages s) < 2))
             \<and> ((refImages s' = refImages s @ [url] \<and> baseImages s' = baseImages s)
                  = (\<not> (falsy_str (modelName s) \<or> length (baseImages s) < 2))))
       \<and> (\<forall>c. c \<noteq> chatId \<longrightarrow> sessions st' c = sessions st c)
       \<and> users st' = users st \<and> usage st' = usage st
       \<and> (sessions st chatId = None \<and> sizes_b \<noteq> [] \<and> sizes_c \<noteq> []
            \<and> trim (js_join '' '' (drop 1 (js_split CHR '' '' cmd))) \<noteq> [] \<longrightarrow>
           sessions (run cfg st [Message chatId sndr (Some sizes) (Some fp) now,
                                 Message chatId sndr_b (Some sizes_b) (Some fp_b) now_b]) chatId
             = Some \<lparr>modelName = None,
                  baseImages = [url,
                    ''https://api.telegram.org/file/bot'' @ TELEGRAM_TOKEN cfg @ ''/'' @ fp_b],
                  refImages = [], instagramHandles = []\<rparr>
         \<and> sessions (run cfg st [Message chatId sndr (Some sizes) (Some fp) now,
                                 Message chatId sndr_b (Some sizes_b) (Some fp_b) now_b,
                                 CommandModel chatId cmd,
                                 Message chatId sndr_c (Some sizes_c) (Some fp_c) now_c]) chatId
             = Some \<lparr>modelName = Some (trim (js_join '' '' (drop 1 (js_split CHR '' '' cmd)))),
                  baseImages = [url,
                    ''https://api.telegram.org/file/bot'' @ TELEGRAM_TOKEN cfg @ ''/'' @ fp_b],
                  refImages =
                    [''https://api.telegram.org/file/bot'' @ TELEGRAM_TOKEN cfg @ ''/'' @ fp_c],
                  instagramHandles = []\<rparr>)"
  using assms
  by (auto simp add: on_message_def command_model_def Let_def getUserStatus_def new_session_def
        falsy_str_def)

theorem photo_goes_to_base_or_reference_witness:
  "getUserStatus (example_state\<lparr>sessions := Map.empty\<rparr>) (NumId 7) = Some approved
   \<and> sessions (example_state\<lparr>sessions := Map.empty\<rparr>) 7 = None
   \<and> trim (js_join '' '' (drop 1 (js_split CHR '' '' ''/model Aria''))) = ''Aria''
   \<and> sessions (run example_config (example_state\<lparr>sessions := Map.empty\<rparr>)
        [Message 7 \<lparr>from_id = 7, from_username = Some ''aria'', first_name = None, last_name = None\<rparr>
           (Some [''small1'', ''large1'']) (Some ''photos/1.jpg'') ''t1'',
         Message 7 \<lparr>from_id = 7, from_username = Some ''aria'', first_name = None, last_name = None\<rparr>
           (Some [''large2'']) (Some ''photos/2.jpg'') ''t2'',
         CommandModel 7 ''/model Aria'',
         Message 7 \<lparr>from_id = 7, from_username = Some ''aria'', first_name = None, last_name = None\<rparr>
           (Some [''large3'']) (Some ''photos/3.jpg'') ''t3'']) 7
       = Some \<lparr>modelName = Some ''Aria'',
            baseImages = [''https://api.telegram.org/file/botT/photos/1.jpg'',
                          ''https://api.telegram.org/file/botT/photos/2.jpg''],
            refImages = [''https://api.telegram.org/file/botT/photos/3.jpg''],
            instagramHandles = []\<rparr>"
proof -
  have a: "getUserStatus (example_state\<lparr>sessions := Map.empty\<rparr>) (NumId 7) = Some approved"
    and b: "sessions (example_state\<lparr>sessions := Map.empty\<rparr>) 7 = None"
    by (simp_all add: example_not_ready)
  have m: "trim (js_join '' '' (drop 1 (js_split CHR '' '' ''/model Aria''))) = ''Aria''"
    by code_simp
  have n: "[''small1'', ''large1''] \<noteq> []"
    by simp
  note t = photo_goes_to_base_or_reference
    [where st = "example_state\<lparr>sessions := Map.empty\<rparr>" and cfg = example_config
       and sizes = "[''small1'', ''large1'']" and fp = "''photos/1.jpg''" and now = "''t1''"
       and sndr = "\<lparr>from_id = 7, from_username = Some ''aria'', first_name = None, last_name = None\<rparr>"
       and sndr_b = "\<lparr>from_id = 7, from_username = Some ''aria'', first_name = None, last_name = None\<rparr>"
       and sndr_c = "\<lparr>from_id = 7, from_username = Some ''aria'', first_name = None, last_name = None\<rparr>"
       and sizes_b = "[''large2'']" and fp_b = "''photos/2.jpg''" and now_b = "''t2''"
       and sizes_c = "[''large3'']" and fp_c = "''photos/3.jpg''" and now_c = "''t3''"
       and cmd = "''/model Aria''",
     OF a n refl refl refl]
  from t [THEN conjunct2, THEN conjunct2, THEN conjunct2, THEN conjunct2, THEN conjunct2,
          THEN conjunct2] a b m
  show ?thesis
    by (simp add: example_config_def)
qed

section \<open>Approve and Deny from someone who is not the admin\<close>

text \<open>
  C6. A button event with the payload \<open>approve_U\<close> or \<open>deny_U\<close>, from a sender
  whose id is not \<open>ADMIN_ID\<close>, changes nothing in the state (the registry, and the
  status of U in it, are as before) and makes a single call, the empty answer to the
  button query: no message goes to U and no error text goes to the sender.
\<close>

theorem non_admin_approve_deny_ignored:
  assumes "String_int (from_id sndr) \<noteq> ADMIN_ID cfg"
      and "d = ''approve_'' @ u \<or> d = ''deny_'' @ u"
  shows "on_callback_query cfg st chatId sndr (Some d) now = (st, [AnswerCbQuery None])
     \<and> users (fst (on_callback_query cfg st chatId sndr (Some d) now)) = users st
     \<and> getUserStatus (fst (on_callback_query cfg st chatId sndr (Some d) now)) (StrId u)
         = getUserStatus st (StrId u)"
  using assms by (auto simp add: on_callback_query_def startsWith_def falsy_str_def)

theorem non_admin_approve_deny_ignored_witness:
  "String_int (from_id \<lparr>from_id = 5, from_username = Some ''eve'', first_name = None,
       last_name = None\<rparr>) \<noteq> ADMIN_ID example_config
   \<and> on_callback_query example_config example_state 5
        \<lparr>from_id = 5, from_username = Some ''eve'', first_name = None, last_name = None\<rparr>
        (Some ''deny_7'') ''2026-11-03T10:00:00.000Z''
       = (example_state, [AnswerCbQuery None])
   \<and> getUserStatus (fst (on_callback_query example_config example_state 5
        \<lparr>from_id = 5, from_username = Some ''eve'', first_name = None, last_name = None\<rparr>
        (Some ''deny_7'') ''2026-11-03T10:00:00.000Z'')) (StrId ''7'') = Some approved"
proof -
  have h: "String_int (from_id \<lparr>from_id = 5, from_username = Some ''eve'', first_name = None,
       last_name = None\<rparr>) \<noteq> ADMIN_ID example_config"
    by (simp add: String_int_def digit_char_def example_config_def)
  have d: "''deny_7'' = ''approve_'' @ ''7'' \<or> ''deny_7'' = ''deny_'' @ ''7''"
    by simp
  from non_admin_approve_deny_ignored [OF h d, of example_state 5 "''2026-11-03T10:00:00.000Z''"]
  show ?thesis
    using h by (simp add: getUserStatus_def example_state_def)
qed


section \<open>/model checks its argument first\<close>

text \<open>
  C10. When the argument of /model (the words after the command, joined and trimmed) is
  empty, the handler replies with the usage hint and returns the state as it was, for an
  approved user as for any other. The reply that the user is not approved is given only
  when the argument is not empty and the user is not approved, and it is given then.
\<close>

theorem model_argument_checked_before_approval:
  "(trim (js_join '' '' (drop 1 (js_split CHR '' '' cmd))) = [] \<longrightarrow>
      command_model st chatId cmd = (st, [Reply chatId ''Usage: /model <Model Name>'' []]))
   \<and> (snd (command_model st chatId cmd)
         = [Reply chatId (emoji_lock @ '' You are not approved yet. Tap Request Access first.'') []]
       \<longrightarrow> trim (js_join '' '' (drop 1 (js_split CHR '' '' cmd))) \<noteq> []
           \<and> getUserStatus st (NumId chatId) \<noteq> Some approved)
   \<and> (trim (js_join '' '' (drop 1 (js_split CHR '' '' cmd))) \<noteq> []
       \<and> getUserStatus st (NumId chatId) \<noteq> Some approved \<longrightarrow>
      command_model st chatId cmd
        = (st, [Reply chatId (emoji_lock @ '' You are not approved yet. Tap Request Access first.'') []]))"
  by (auto simp add: command_model_def Let_def emoji_lock_def)

theorem model_argument_checked_before_approval_witness:
  "trim (js_join '' '' (drop 1 (js_split CHR '' '' ''/model''))) = []
   \<and> trim (js_join '' '' (drop 1 (js_split CHR '' '' ''/model   ''))) = []
   \<and> getUserStatus empty_state (NumId 7) \<noteq> Some approved
   \<and> getUserStatus example_state (NumId 7) = Some approved
   \<and> command_model empty_state 7 ''/model'' = (empty_state, [Reply 7 ''Usage: /model <Model Name>'' []])
   \<and> command_model example_state 7 ''/model   ''
       = (example_state, [Reply 7 ''Usage: /model <Model Name>'' []])
   \<and> trim (js_join '' '' (drop 1 (js_split CHR '' '' ''/model Aria''))) \<noteq> []
   \<and> command_model empty_state 7 ''/model Aria''
       = (empty_state,
          [Reply 7 (emoji_lock @ '' You are not approved yet. Tap Request Access first.'') []])"
proof -
  have e1: "trim (js_join '' '' (drop 1 (js_split CHR '' '' ''/model''))) = []"
    by code_simp
  have e2: "trim (js_join '' '' (drop 1 (js_split CHR '' '' ''/model   ''))) = []"
    by code_simp
  have e3: "trim (js_join '' '' (drop 1 (js_split CHR '' '' ''/model Aria''))) \<noteq> []"
    by code_simp
  note a = model_argument_checked_before_approval
    [where cmd = "''/model''" and st = empty_state and chatId = 7, THEN conjunct1]
  note b = model_argument_checked_before_approval
    [where cmd = "''/model   ''" and st = example_state and chatId = 7, THEN conjunct1]
  note c = model_argument_checked_before_approval
    [where cmd = "''/model Aria''" and st = empty_state and chatId = 7,
     THEN conjunct2, THEN conjunct2]
  from a b c e1 e2 e3 show ?thesis
    using example_not_ready(1) example_ready(1) by simp
qed

section \<open>The daily limit is never exceeded\<close>

text \<open>
  C9. Start from empty stores and handle any list of events, each to completion, the
  clock not going back between the dates the handlers read. Then every count in the usage
  ledger, for every day and user, is at most \<open>DAILY_LIMIT\<close>; when the limit is not
  negative, so is the count \<open>getUsageCount\<close> gives for any user and day, entered in
  the ledger or not. Only /generate changes the ledger: every other handler leaves it as
  it was, and /generate either leaves it as it was or adds, once, the number it has just
  checked against the limit together with the usage of the user.
\<close>

theorem usage_never_exceeds_daily_limit:
  assumes "chronological es"
  shows "(\<forall>d day u c. usage (run cfg empty_state es) d = Some day \<longrightarrow> day u = Some c
            \<longrightarrow> c \<le> DAILY_LIMIT cfg)
     \<and> (0 \<le> DAILY_LIMIT cfg \<longrightarrow>
          (\<forall>u d. getUsageCount (run cfg empty_state es) u d \<le> DAILY_LIMIT cfg))
     \<and> (\<forall>st e. (\<forall>chatId today env today'. e \<noteq> CommandGenerate chatId today env today')
            \<longrightarrow> usage (fst (handle cfg st e)) = usage st)
     \<and> (\<forall>st chatId today env today'.
           usage (fst (command_generate cfg st chatId today env today')) = usage st
           \<or> (\<exists>tot. getUsageCount st (NumId chatId) today + int tot \<le> DAILY_LIMIT cfg
                  \<and> usage (fst (command_generate cfg st chatId today env today'))
                      = usage (addUsage st (NumId chatId) (int tot) today')))"
proof -
  have inv: "\<forall>d day u c. usage (run cfg empty_state es) d = Some day \<longrightarrow> day u = Some c
           \<longrightarrow> 0 \<le> c \<and> c \<le> DAILY_LIMIT cfg"
    by (rule run_within_limit [OF assms [unfolded chronological_def]])
       (simp_all add: empty_state_def)
  then have a: "\<forall>d day u c. usage (run cfg empty_state es) d = Some day \<longrightarrow> day u = Some c
            \<longrightarrow> c \<le> DAILY_LIMIT cfg"
    by blast
  have b: "0 \<le> DAILY_LIMIT cfg \<longrightarrow>
          (\<forall>u d. getUsageCount (run cfg empty_state es) u d \<le> DAILY_LIMIT cfg)"
    using getUsageCount_bounds(2) [OF inv] by blast
  have c: "\<forall>st e. (\<forall>chatId today env today'. e \<noteq> CommandGenerate chatId today env today')
            \<longrightarrow> usage (fst (handle cfg st e)) = usage st"
    using handle_usage_unchanged by blast
  from a b c command_generate_usage show ?thesis
    by blast
qed


theorem usage_never_exceeds_daily_limit_witness:
  "chronological example_run
   \<and> 0 \<le> DAILY_LIMIT example_config
   \<and> getUsageCount (run example_config empty_state example_run) (NumId 7) ''2026-11-04'' = 2
   \<and> getUsageCount (run example_config empty_state example_run) (NumId 7) ''2026-11-04''
        \<le> DAILY_LIMIT example_config"
proof -
  have c: "chronological example_run"
    by (simp add: chronological_def example_run_def)
  have l: "0 \<le> DAILY_LIMIT example_config"
    by (simp add: example_config_def)
  from usage_never_exceeds_daily_limit [OF c, of example_config] l
  have "getUsageCount (run example_config empty_state example_run) (NumId 7) ''2026-11-04''
        \<le> DAILY_LIMIT example_config"
    by blast
  with c l example_run_usage show ?thesis by simp
qed

end
